theory Spec2Isabelle
  imports Complex_Main "HOL-Library.Char_ord" "HOL-Library.List_Lexorder" "HOL-Library.Multiset"
    "HOL-Library.Sublist"
begin

section \<open>Python values, errors and annotation segments\<close>

text \<open>
  The annotator stores every segment as a Python dictionary. The numeric keys
  \<^verbatim>\<open>start\<close> and \<^verbatim>\<open>end\<close> hold floats (read here as real numbers, so the order
  comparisons of the source are the order of the reals; NaN is outside the model); every
  other key holds a string or \<^verbatim>\<open>None\<close>. A key may be absent, which is what the
  \<^verbatim>\<open>.get(key, default)\<close> calls of the source provide for.
\<close>

datatype pyval = PyNone | PyStr string

datatype py_error =
    TypeError
  | KeyError
  | NameError string
  | HTTPException nat string
  | ValueError string
  | JSONDecodeError
  | RuntimeError string

record segment =
  seg_start :: "real option"
  seg_end :: "real option"
  seg_fields :: "(string \<times> pyval) list"

definition get_start :: "segment \<Rightarrow> real" where
  \<comment> \<open>\<^verbatim>\<open>float(seg.get("start", 0))\<close>\<close>
  "get_start seg = (case seg_start seg of None \<Rightarrow> 0 | Some v \<Rightarrow> v)"

definition get_end :: "segment \<Rightarrow> real" where
  \<comment> \<open>\<^verbatim>\<open>float(seg.get("end", 0))\<close>\<close>
  "get_end seg = (case seg_end seg of None \<Rightarrow> 0 | Some v \<Rightarrow> v)"

definition seg_get :: "segment \<Rightarrow> string \<Rightarrow> pyval \<Rightarrow> pyval" where
  \<comment> \<open>\<^verbatim>\<open>seg.get(key, default)\<close> on a string-valued key\<close>
  "seg_get seg key dflt = (case map_of (seg_fields seg) key of None \<Rightarrow> dflt | Some v \<Rightarrow> v)"

definition truthy :: "pyval \<Rightarrow> bool" where
  \<comment> \<open>Python truth value: \<^verbatim>\<open>None\<close> and the empty string are false\<close>
  "truthy v = (case v of PyNone \<Rightarrow> False | PyStr s \<Rightarrow> s \<noteq> [])"

definition py_or :: "pyval \<Rightarrow> pyval \<Rightarrow> pyval" where
  \<comment> \<open>\<^verbatim>\<open>a or b\<close>\<close>
  "py_or a b = (if truthy a then a else b)"

fun str_items :: "pyval list \<Rightarrow> py_error + string list" where
  "str_items [] = Inr []"
| "str_items (PyNone # vs) = Inl TypeError"
| "str_items (PyStr s # vs) = (case str_items vs of Inl e \<Rightarrow> Inl e | Inr ss \<Rightarrow> Inr (s # ss))"

fun intercalate :: "string \<Rightarrow> string list \<Rightarrow> string" where
  "intercalate sep [] = []"
| "intercalate sep [s] = s"
| "intercalate sep (s # t # ss) = s @ sep @ intercalate sep (t # ss)"

definition str_join :: "string \<Rightarrow> pyval list \<Rightarrow> py_error + string" where
  \<comment> \<open>\<^verbatim>\<open>sep.join(items)\<close>: a \<^verbatim>\<open>TypeError\<close> when an item is not a string\<close>
  "str_join sep vs = (case str_items vs of Inl e \<Rightarrow> Inl e | Inr ss \<Rightarrow> Inr (intercalate sep ss))"

definition make_task_key :: "segment \<Rightarrow> py_error + string" where
  "make_task_key seg =
     str_join ''||''
       [ seg_get seg ''user_prompt'' (PyStr ''''),
         seg_get seg ''robot_utterance'' (PyStr ''''),
         py_or (seg_get seg ''skill'' (PyStr '''')) (PyStr ''''),
         seg_get seg ''scenario_type'' (PyStr ''''),
         seg_get seg ''response_type'' (PyStr '''') ]"

section \<open>Export-time interval assignment\<close>

definition mapping_get :: "(string \<rightharpoonup> int) \<Rightarrow> pyval \<Rightarrow> int" where
  \<comment> \<open>\<^verbatim>\<open>mapping.get(label, -1)\<close>; the keys of the mapping are strings\<close>
  "mapping_get mapping label =
     (case label of PyNone \<Rightarrow> -1
      | PyStr s \<Rightarrow> (case mapping s of None \<Rightarrow> -1 | Some i \<Rightarrow> i))"

definition seg_label :: "string \<Rightarrow> segment \<Rightarrow> py_error + pyval" where
  \<comment> \<open>The label of a matching segment: the field named by \<open>label_key\<close>, or the task key.\<close>
  "seg_label label_key seg =
     (let label = seg_get seg label_key (PyStr '''') in
      if label_key = ''task_key'' then
        (case make_task_key seg of Inl e \<Rightarrow> Inl e | Inr k \<Rightarrow> Inr (PyStr k))
      else Inr label)"

fun scan_segments ::
  "(string \<rightharpoonup> int) \<Rightarrow> string \<Rightarrow> real \<Rightarrow> nat \<Rightarrow> nat \<Rightarrow> segment list \<Rightarrow> py_error + int option" where
  \<comment> \<open>The inner loop over \<^verbatim>\<open>enumerate(segments_sorted)\<close>, from position \<open>seg_idx\<close>;
      \<open>n\<close> is \<^verbatim>\<open>len(segments_sorted)\<close>. \<open>None\<close>: the loop ended without a match.\<close>
  "scan_segments mapping label_key ts_val n seg_idx [] = Inr None"
| "scan_segments mapping label_key ts_val n seg_idx (seg # rest) =
     (let start = get_start seg;
          end = get_end seg;
          is_last = (int seg_idx = int n - 1)
      in if (start \<le> ts_val \<and> ts_val < end) \<or> (is_last \<and> ts_val \<le> end) then
           (case seg_label label_key seg of
              Inl e \<Rightarrow> Inl e
            | Inr label \<Rightarrow> Inr (Some (mapping_get mapping label)))
         else scan_segments mapping label_key ts_val n (Suc seg_idx) rest)"

fun assign_loop ::
  "(string \<rightharpoonup> int) \<Rightarrow> string \<Rightarrow> segment list \<Rightarrow> nat \<Rightarrow> real list \<Rightarrow> int list \<Rightarrow> py_error + int list" where
  \<comment> \<open>The outer loop over \<^verbatim>\<open>enumerate(timestamps)\<close>, from position \<open>i\<close>.\<close>
  "assign_loop mapping label_key segments_sorted i [] values = Inr values"
| "assign_loop mapping label_key segments_sorted i (ts # rest) values =
     (case scan_segments mapping label_key ts (length segments_sorted) 0 segments_sorted of
        Inl e \<Rightarrow> Inl e
      | Inr None \<Rightarrow> assign_loop mapping label_key segments_sorted (Suc i) rest values
      | Inr (Some v) \<Rightarrow> assign_loop mapping label_key segments_sorted (Suc i) rest (values[i := v]))"

definition assign_indices_by_segments ::
  "real list \<Rightarrow> segment list \<Rightarrow> (string \<rightharpoonup> int) \<Rightarrow> string \<Rightarrow> py_error + int list" where
  "assign_indices_by_segments timestamps segments mapping label_key =
     (let values = replicate (length timestamps) (-1) in
      if segments = [] then Inr values
      else assign_loop mapping label_key (sort_key get_start segments) 0 timestamps values)"

text \<open>
  The rule of the specification, in its own words: the position of the first sorted
  segment that contains the timestamp, where the last segment is closed on the right.
\<close>

definition spec_contains :: "segment list \<Rightarrow> real \<Rightarrow> nat \<Rightarrow> bool" where
  "spec_contains sorted_segs ts j =
     ((get_start (sorted_segs ! j) \<le> ts \<and> ts < get_end (sorted_segs ! j)) \<or>
      (Suc j = length sorted_segs \<and> ts \<le> get_end (sorted_segs ! j)))"

definition spec_first_match :: "segment list \<Rightarrow> real \<Rightarrow> nat option" where
  "spec_first_match sorted_segs ts = find (spec_contains sorted_segs ts) [0..<length sorted_segs]"

definition spec_assign :: "(string \<rightharpoonup> int) \<Rightarrow> (segment \<Rightarrow> pyval) \<Rightarrow> segment list \<Rightarrow> real \<Rightarrow> int" where
  "spec_assign mapping lbl sorted_segs ts =
     (case spec_first_match sorted_segs ts of
        None \<Rightarrow> - 1
      | Some j \<Rightarrow> mapping_get mapping (lbl (sorted_segs ! j)))"

definition boundary_segments :: "segment list" where
  "boundary_segments =
     [\<lparr>seg_start = Some 0, seg_end = Some 1, seg_fields = [(''label'', PyStr ''L0'')]\<rparr>,
      \<lparr>seg_start = Some 1, seg_end = Some 2, seg_fields = [(''label'', PyStr ''L1'')]\<rparr>]"

section \<open>Annotation state and the label tables of the export\<close>

record qa_label =
  frame_idx :: "int option"
  qa_type :: pyval
  question :: pyval
  answer :: pyval

record EpisodeAnnotations =
  subtasks :: "segment list"
  high_levels :: "segment list"
  qa_labels :: "qa_label list"

text \<open>
  A Python dictionary is an association list in insertion order; \<open>dict_set\<close> is
  \<^verbatim>\<open>d[k] = v\<close>, which overwrites the value of a key that is present and appends a new
  key at the end.
\<close>

type_synonym annotations = "(int \<times> EpisodeAnnotations) list"

definition dict_values :: "('k \<times> 'v) list \<Rightarrow> 'v list" where
  "dict_values d = map snd d"

definition dict_set :: "('k \<times> 'v) list \<Rightarrow> 'k \<Rightarrow> 'v \<Rightarrow> ('k \<times> 'v) list" where
  "dict_set d k v =
     (if k \<in> fst ` set d then map (\<lambda>(k', v'). if k' = k then (k', v) else (k', v')) d
      else d @ [(k, v)])"

definition subtask_label_values :: "annotations \<Rightarrow> string list" where
  \<comment> \<open>the elements of the set comprehension of \<^verbatim>\<open>build_subtasks_dataframe\<close>, in
      iteration order: \<^verbatim>\<open>seg["label"]\<close> for every subtask with a truthy label\<close>
  "subtask_label_values annotations =
     [s. ann \<leftarrow> dict_values annotations, seg \<leftarrow> subtasks ann,
         PyStr s \<leftarrow> [seg_get seg ''label'' PyNone], truthy (PyStr s)]"

definition build_subtasks_dataframe ::
  "annotations \<Rightarrow> (string \<times> int) list \<times> (string \<times> int) list" where
  \<comment> \<open>the rows \<open>(subtask, subtask_index)\<close> of the table, and the mapping\<close>
  "build_subtasks_dataframe annotations =
     (let labels = sort (remdups (subtask_label_values annotations));
          data = map (\<lambda>(idx, label). (label, int idx)) (enumerate 0 labels);
          subtask_map = fold (\<lambda>(idx, label) d. dict_set d label (int idx)) (enumerate 0 labels) []
      in (data, subtask_map))"

record task_row =
  task :: string
  task_index :: int
  row_user_prompt :: pyval
  row_robot_utterance :: pyval
  row_skill :: pyval
  row_scenario_type :: pyval
  row_response_type :: pyval

definition py_str :: "pyval \<Rightarrow> string" where
  \<comment> \<open>\<^verbatim>\<open>str(v)\<close>, also the formatting of \<open>v\<close> in an f-string\<close>
  "py_str v = (case v of PyNone \<Rightarrow> ''None'' | PyStr s \<Rightarrow> s)"

fun high_level_loop ::
  "segment list \<Rightarrow> segment list \<Rightarrow> (string \<times> int) list \<Rightarrow>
   py_error + segment list \<times> (string \<times> int) list" where
  \<comment> \<open>the first loop of \<^verbatim>\<open>build_high_level_dataframe\<close> over all high-level segments of
      all episodes, with the state \<open>(tasks, task_map)\<close>\<close>
  "high_level_loop [] tasks task_map = Inr (tasks, task_map)"
| "high_level_loop (seg # segs) tasks task_map =
     (case make_task_key seg of
        Inl e \<Rightarrow> Inl e
      | Inr key \<Rightarrow>
          if key \<notin> fst ` set task_map then
            high_level_loop segs (tasks @ [seg]) (dict_set task_map key (int (length task_map)))
          else high_level_loop segs tasks task_map)"

fun high_level_rows :: "(string \<times> int) list \<Rightarrow> segment list \<Rightarrow> py_error + task_row list" where
  \<comment> \<open>the second loop, one table row for each first-seen segment\<close>
  "high_level_rows task_map [] = Inr []"
| "high_level_rows task_map (seg # segs) =
     (case make_task_key seg of
        Inl e \<Rightarrow> Inl e
      | Inr key \<Rightarrow>
          (case map_of task_map key of
             None \<Rightarrow> Inl KeyError
           | Some idx \<Rightarrow>
               (case high_level_rows task_map segs of
                  Inl e \<Rightarrow> Inl e
                | Inr rows \<Rightarrow>
                    Inr (\<lparr> task = py_str (seg_get seg ''user_prompt'' (PyStr '''')) @ '' | '' @
                                 py_str (seg_get seg ''robot_utterance'' (PyStr '''')),
                           task_index = idx,
                           row_user_prompt = seg_get seg ''user_prompt'' (PyStr ''''),
                           row_robot_utterance = seg_get seg ''robot_utterance'' (PyStr ''''),
                           row_skill = py_or (seg_get seg ''skill'' PyNone) (PyStr ''''),
                           row_scenario_type = py_or (seg_get seg ''scenario_type'' PyNone) (PyStr ''''),
                           row_response_type = py_or (seg_get seg ''response_type'' PyNone) (PyStr '''') \<rparr>
                         # rows))))"

definition all_high_levels :: "annotations \<Rightarrow> segment list" where
  "all_high_levels annotations = [seg. ann \<leftarrow> dict_values annotations, seg \<leftarrow> high_levels ann]"

definition build_high_level_dataframe ::
  "annotations \<Rightarrow> py_error + task_row list \<times> (string \<times> int) list" where
  "build_high_level_dataframe annotations =
     (case high_level_loop (all_high_levels annotations) [] [] of
        Inl e \<Rightarrow> Inl e
      | Inr (tasks, task_map) \<Rightarrow>
          (case high_level_rows task_map tasks of
             Inl e \<Rightarrow> Inl e
           | Inr rows \<Rightarrow> Inr (rows, task_map)))"

fun task_keys_in_order :: "segment list \<Rightarrow> py_error + string list" where
  \<comment> \<open>the task keys of the segments in order, or the first error that building one raises\<close>
  "task_keys_in_order [] = Inr []"
| "task_keys_in_order (seg # segs) =
     (case make_task_key seg of
        Inl e \<Rightarrow> Inl e
      | Inr k \<Rightarrow> (case task_keys_in_order segs of Inl e \<Rightarrow> Inl e | Inr ks \<Rightarrow> Inr (k # ks)))"

text \<open>Numbering in first-seen order, in the words of the specification.\<close>

fun spec_first_seen :: "'a list \<Rightarrow> 'a list" where
  "spec_first_seen [] = []"
| "spec_first_seen (x # xs) = x # spec_first_seen (removeAll x xs)"

definition spec_numbering :: "string list \<Rightarrow> (string \<times> int) list" where
  "spec_numbering labels = zip labels (map int [0..<length labels])"

definition label_field :: "segment \<Rightarrow> pyval" where
  "label_field seg = seg_get seg ''label'' (PyStr '''')"

definition absent_label :: "(string \<rightharpoonup> int) \<Rightarrow> pyval \<Rightarrow> bool" where
  \<comment> \<open>the label is not a key of the mapping\<close>
  "absent_label mapping l = (case l of PyNone \<Rightarrow> True | PyStr s \<Rightarrow> mapping s = None)"

definition labelled :: "real \<Rightarrow> real \<Rightarrow> string \<Rightarrow> segment" where
  \<comment> \<open>the subtask segment \<^verbatim>\<open>{"start": s, "end": e, "label": l}\<close>\<close>
  "labelled s e l = \<lparr>seg_start = Some s, seg_end = Some e, seg_fields = [(''label'', PyStr l)]\<rparr>"

definition c3_annotations :: annotations where
  "c3_annotations =
     [(0, \<lparr>subtasks = [labelled 0 1 ''b'', labelled 1 2 ''a''], high_levels = [], qa_labels = []\<rparr>)]"

definition high_level :: "real \<Rightarrow> real \<Rightarrow> string \<Rightarrow> string \<Rightarrow> segment" where
  \<comment> \<open>a high-level segment with a prompt and an utterance, no skill, and no other key\<close>
  "high_level s e prompt utterance =
     \<lparr>seg_start = Some s, seg_end = Some e,
      seg_fields = [(''user_prompt'', PyStr prompt), (''robot_utterance'', PyStr utterance),
                    (''skill'', PyNone)]\<rparr>"

definition c3_shared_annotations :: annotations where
  "c3_shared_annotations =
     [(0, \<lparr>subtasks = [labelled 0 1 ''b''], high_levels = [high_level 0 1 ''q2'' ''r''], qa_labels = []\<rparr>),
      (1, \<lparr>subtasks = [labelled 0 1 ''a'', labelled 1 2 ''b''],
           high_levels = [high_level 0 1 ''q1'' ''r'', high_level 1 2 ''q2'' ''r''], qa_labels = []\<rparr>)]"

definition unset_tag_annotations :: annotations where
  \<comment> \<open>a high-level segment as the annotation form saves it when the optional tags are left
      unset: the keys are present and hold \<^verbatim>\<open>None\<close>\<close>
  "unset_tag_annotations =
     [(0, \<lparr>subtasks = [],
           high_levels =
             [\<lparr>seg_start = Some 0, seg_end = Some 1,
               seg_fields = [(''user_prompt'', PyStr ''q''), (''robot_utterance'', PyStr ''r''),
                             (''skill'', PyNone), (''scenario_type'', PyNone),
                             (''response_type'', PyNone)]\<rparr>],
           qa_labels = []\<rparr>)]"

definition overlap_segments :: "segment list" where
  \<comment> \<open>an unlabelled segment overlapped by a later, labelled one\<close>
  "overlap_segments = [labelled 0 2 '''', labelled 1 3 ''a'']"

section \<open>Merging adjacent subtask segments\<close>

definition round_half_even :: "real \<Rightarrow> int" where
  \<comment> \<open>rounding to the nearest integer, ties to the even one\<close>
  "round_half_even x =
     (let f = \<lfloor>x\<rfloor>; d = x - of_int f
      in if d < 1 / 2 then f else if 1 / 2 < d then f + 1 else if even f then f else f + 1)"

definition py_round3 :: "real \<Rightarrow> real" where
  \<comment> \<open>\<^verbatim>\<open>round(x, 3)\<close>, on the real number that the float stands for\<close>
  "py_round3 x = of_int (round_half_even (x * 1000)) / 1000"

definition same_label_overlap :: "segment \<Rightarrow> segment \<Rightarrow> bool" where
  \<comment> \<open>the test of the loop: equal labels (compared as strings) and
      \<^verbatim>\<open>prev.end >= s.start\<close>\<close>
  "same_label_overlap prev s =
     (py_str (seg_get prev ''label'' (PyStr '''')) = py_str (seg_get s ''label'' (PyStr ''''))
      \<and> get_start s \<le> get_end prev)"

fun merge_loop :: "segment list \<Rightarrow> segment list \<Rightarrow> segment list" where
  \<comment> \<open>the first loop of \<^verbatim>\<open>_merge_adjacent_subtasks\<close>, with the list \<open>out\<close> built so far\<close>
  "merge_loop [] out = out"
| "merge_loop (s # segments) out =
     (if out = [] then merge_loop segments (out @ [s])
      else
        let prev = last out in
        if same_label_overlap prev s then
          merge_loop segments
            (butlast out @ [prev\<lparr>seg_end := Some (max (get_end prev) (get_end s))\<rparr>])
        else merge_loop segments (out @ [s]))"

definition round_times :: "segment \<Rightarrow> segment" where
  \<comment> \<open>the body of the second loop\<close>
  "round_times s = s\<lparr>seg_start := Some (py_round3 (get_start s)),
                       seg_end := Some (py_round3 (get_end s))\<rparr>"

definition merge_adjacent_subtasks :: "segment list \<Rightarrow> segment list" where
  "merge_adjacent_subtasks segments =
     (if segments = [] then [] else map round_times (merge_loop segments []))"

text \<open>
  The merge as a rule on neighbours: a segment absorbs its successor when the labels agree
  and the spans touch or overlap. \<open>spec_merge_max\<close> extends the end to the larger of
  the two ends; \<open>spec_merge_later\<close> sets it to the end of the later segment.
\<close>

fun spec_merge_max :: "segment list \<Rightarrow> segment list" where
  "spec_merge_max [] = []"
| "spec_merge_max [x] = [x]"
| "spec_merge_max (x # y # rest) =
     (if same_label_overlap x y
      then spec_merge_max (x\<lparr>seg_end := Some (max (get_end x) (get_end y))\<rparr> # rest)
      else x # spec_merge_max (y # rest))"

fun spec_merge_later :: "segment list \<Rightarrow> segment list" where
  "spec_merge_later [] = []"
| "spec_merge_later [x] = [x]"
| "spec_merge_later (x # y # rest) =
     (if same_label_overlap x y
      then spec_merge_later (x\<lparr>seg_end := Some (get_end y)\<rparr> # rest)
      else x # spec_merge_later (y # rest))"

section \<open>The media cache (frame and clip sampler)\<close>

text \<open>
  The sampler works on the file system and runs an external transcoder. The state is
  the content of the files and the list of the effects so far; a file is its bytes.
  \<^verbatim>\<open>hashlib.sha1\<close>, the float and integer formatting of f-strings and the transcoder
  are not code of the repository: they are parameters of the model. The transcoder maps
  its command line and the files to an error text (a non-zero exit status) or none, and
  to the files it leaves. Directories are not modelled beyond the \<open>Mkdir\<close> effect.
\<close>

type_synonym path = string
type_synonym bytes = string

datatype fs_event =
    Mkdir path
  | Run "string list"
  | Rename path path

record world =
  files :: "path \<rightharpoonup> bytes"
  events :: "fs_event list"

record pylib =
  sha1 :: "string \<Rightarrow> string"
  fmt_6f :: "real \<Rightarrow> string"
  fmt_3f :: "real \<Rightarrow> string"
  fmt_float :: "real \<Rightarrow> string"
  fmt_int :: "int \<Rightarrow> string"

type_synonym transcoder = "string list \<Rightarrow> (path \<rightharpoonup> bytes) \<Rightarrow> string option \<times> (path \<rightharpoonup> bytes)"

record FrameSampler =
  cache_dir :: path
  image_max_side :: int

definition path_join :: "path \<Rightarrow> string \<Rightarrow> path" where
  \<comment> \<open>\<^verbatim>\<open>directory / name\<close> for a relative name\<close>
  "path_join d name = d @ ''/'' @ name"

definition cached :: "world \<Rightarrow> path \<Rightarrow> bool" where
  \<comment> \<open>\<^verbatim>\<open>p.exists() and p.stat().st_size > 0\<close>\<close>
  "cached w p = (case files w p of None \<Rightarrow> False | Some b \<Rightarrow> 0 < length b)"

definition mkdir :: "path \<Rightarrow> world \<Rightarrow> world" where
  \<comment> \<open>\<^verbatim>\<open>p.mkdir(parents=True, exist_ok=True)\<close>\<close>
  "mkdir p w = w\<lparr>events := events w @ [Mkdir p]\<rparr>"

definition subprocess_run :: "transcoder \<Rightarrow> string list \<Rightarrow> world \<Rightarrow> string option \<times> world" where
  \<comment> \<open>\<^verbatim>\<open>subprocess.run(cmd, check=True, ...)\<close>: the error text stands for
      \<^verbatim>\<open>CalledProcessError\<close>\<close>
  "subprocess_run tool cmd w =
     (case tool cmd (files w) of
        (err, fs) \<Rightarrow> (err, w\<lparr>files := fs, events := events w @ [Run cmd]\<rparr>))"

definition frame_path :: "pylib \<Rightarrow> FrameSampler \<Rightarrow> path \<Rightarrow> real \<Rightarrow> path" where
  "frame_path lib self video_path ts_sec =
     (let key = sha1 lib (video_path @ ''|'' @ fmt_6f lib ts_sec @ ''|'' @ fmt_int lib (image_max_side self))
      in path_join (cache_dir self) (''frame_'' @ key @ ''.jpg''))"

definition bsl :: string where
  \<comment> \<open>a backslash\<close>
  "bsl = [CHR 0x5C]"

definition frame_cmd :: "pylib \<Rightarrow> FrameSampler \<Rightarrow> path \<Rightarrow> real \<Rightarrow> path \<Rightarrow> string list" where
  "frame_cmd lib self video_path ts_sec out_path =
     (let s = fmt_int lib (image_max_side self);
          vf = ''scale=if(gt(iw'' @ bsl @ '',ih)'' @ bsl @ '','' @ s @ bsl @ '',-2):if(gt(iw'' @ bsl @
               '',ih)'' @ bsl @ '',-2'' @ bsl @ '','' @ s @ ''):flags=bicubic''
      in [''ffmpeg'', ''-hide_banner'', ''-loglevel'', ''error'', ''-ss'', fmt_float lib ts_sec,
          ''-i'', video_path, ''-frames:v'', ''1'', ''-q:v'', ''2'', ''-vf'', vf, ''-y'', out_path])"

definition extract_frame ::
  "pylib \<Rightarrow> transcoder \<Rightarrow> FrameSampler \<Rightarrow> path \<Rightarrow> real \<Rightarrow> world \<Rightarrow> (py_error + path) \<times> world" where
  "extract_frame lib tool self video_path ts_sec w =
     (let out_path = frame_path lib self video_path ts_sec in
      if cached w out_path then (Inr out_path, w)
      else
        let cmd = frame_cmd lib self video_path ts_sec out_path;
            w1 = mkdir (cache_dir self) w
        in case subprocess_run tool cmd w1 of
             (Some stderr, w2) \<Rightarrow> (Inl (RuntimeError (''ffmpeg failed: '' @ stderr)), w2)
           | (None, w2) \<Rightarrow>
               if \<not> cached w2 out_path then (Inl (RuntimeError ''ffmpeg produced empty frame''), w2)
               else (Inr out_path, w2))"

definition clip_path :: "pylib \<Rightarrow> FrameSampler \<Rightarrow> path \<Rightarrow> real \<Rightarrow> real \<Rightarrow> real \<Rightarrow> path" where
  "clip_path lib self video_path start_sec end_sec fps =
     (let key = sha1 lib (video_path @ ''|'' @ fmt_3f lib start_sec @ ''|'' @ fmt_3f lib end_sec @ ''|'' @
                          fmt_3f lib fps @ ''|'' @ fmt_int lib (image_max_side self))
      in path_join (cache_dir self) (''clip_'' @ key @ ''.mp4''))"

definition clip_cmd :: "pylib \<Rightarrow> FrameSampler \<Rightarrow> path \<Rightarrow> real \<Rightarrow> real \<Rightarrow> real \<Rightarrow> path \<Rightarrow> string list" where
  "clip_cmd lib self video_path start_sec end_sec fps out_path =
     (let s = fmt_int lib (image_max_side self);
          scale = ''scale='' @ s @ '':'' @ s @ '':force_original_aspect_ratio=decrease:flags=bicubic'';
          make_even = ''pad=ceil(iw/2)*2:ceil(ih/2)*2'';
          vf = ''fps='' @ fmt_float lib fps @ '','' @ scale @ '','' @ make_even
      in [''ffmpeg'', ''-hide_banner'', ''-loglevel'', ''error'', ''-ss'', fmt_float lib start_sec,
          ''-to'', fmt_float lib end_sec, ''-i'', video_path, ''-an'', ''-vf'', vf, ''-c:v'', ''libx264'',
          ''-pix_fmt'', ''yuv420p'', ''-movflags'', ''+faststart'', ''-y'', out_path])"

definition clip_end :: "real \<Rightarrow> real \<Rightarrow> real" where
  \<comment> \<open>the end time after the first guard of \<^verbatim>\<open>extract_clip\<close>\<close>
  "clip_end start_sec end_sec = (if end_sec \<le> start_sec then start_sec + 0.05 else end_sec)"

definition clip_fps :: "real \<Rightarrow> real" where
  \<comment> \<open>the sampling rate after the second guard of \<^verbatim>\<open>extract_clip\<close>\<close>
  "clip_fps fps = (if fps \<le> 1 / 1000000 then 1.0 else fps)"

definition extract_clip ::
  "pylib \<Rightarrow> transcoder \<Rightarrow> FrameSampler \<Rightarrow> path \<Rightarrow> real \<Rightarrow> real \<Rightarrow> real \<Rightarrow> world \<Rightarrow>
   (py_error + path) \<times> world" where
  "extract_clip lib tool self video_path start_sec end_sec0 fps0 w =
     (let end_sec = clip_end start_sec end_sec0;
          fps = clip_fps fps0;
          out_path = clip_path lib self video_path start_sec end_sec fps
      in if cached w out_path then (Inr out_path, w)
         else
           let cmd = clip_cmd lib self video_path start_sec end_sec fps out_path;
               w1 = mkdir (cache_dir self) w
           in case subprocess_run tool cmd w1 of
                (Some stderr, w2) \<Rightarrow> (Inl (RuntimeError (''ffmpeg clip failed: '' @ stderr)), w2)
              | (None, w2) \<Rightarrow>
                  if \<not> cached w2 out_path then (Inl (RuntimeError ''ffmpeg produced empty clip''), w2)
                  else (Inr out_path, w2))"

definition count_runs :: "fs_event list \<Rightarrow> nat" where
  \<comment> \<open>how many times the transcoder was started\<close>
  "count_runs evs = length (filter (\<lambda>e. case e of Run cmd \<Rightarrow> True | _ \<Rightarrow> False) evs)"

text \<open>
  Writing through a temporary file, in the words of the specification: nothing writes
  at the final path, and a rename puts the entry there.
\<close>

definition writes_at :: "path \<Rightarrow> fs_event \<Rightarrow> bool" where
  \<comment> \<open>the transcoder writes its output at the last argument of its command line\<close>
  "writes_at p e = (case e of Run cmd \<Rightarrow> cmd \<noteq> [] \<and> last cmd = p | _ \<Rightarrow> False)"

definition renames_to :: "path \<Rightarrow> fs_event \<Rightarrow> bool" where
  "renames_to p e = (case e of Rename src dst \<Rightarrow> dst = p \<and> src \<noteq> p | _ \<Rightarrow> False)"

definition spec_temp_then_rename :: "fs_event list \<Rightarrow> path \<Rightarrow> bool" where
  "spec_temp_then_rename evs final = (list_ex (renames_to final) evs \<and> \<not> list_ex (writes_at final) evs)"

text \<open>Stand-ins for the library and the transcoder, to run the model on examples.\<close>

definition demo_lib :: pylib where
  "demo_lib = \<lparr> sha1 = (\<lambda>s. ''h'' @ s), fmt_6f = (\<lambda>x. ''t''), fmt_3f = (\<lambda>x. ''t''),
                fmt_float = (\<lambda>x. ''t''), fmt_int = (\<lambda>i. ''768'') \<rparr>"

definition demo_tool :: transcoder where
  \<comment> \<open>writes two bytes at its output path and exits with status 0\<close>
  "demo_tool cmd fs = (None, fs(last cmd \<mapsto> ''ok''))"

definition failing_tool :: transcoder where
  \<comment> \<open>exits with a non-zero status and leaves the files alone\<close>
  "failing_tool cmd fs = (Some ''no such file'', fs)"

definition demo_sampler :: FrameSampler where
  "demo_sampler = \<lparr> cache_dir = ''.cache/ai_frames'', image_max_side = 768 \<rparr>"

definition empty_world :: world where
  "empty_world = \<lparr> files = Map.empty, events = [] \<rparr>"

section \<open>Episode timing\<close>

text \<open>
  The episode table is a data frame with one row for each episode. A row carries the
  episode index, the frame count that \<^verbatim>\<open>int(row.get("length", ...))\<close> yields, and for
  each video key the cells of the columns \<^verbatim>\<open>videos/<key>/from_timestamp\<close> and
  \<^verbatim>\<open>videos/<key>/to_timestamp\<close>, where \<open>None\<close> is a null cell. The table records for
  which video keys these two columns exist.
\<close>

record episode_row =
  episode_index :: int
  ep_length :: int
  from_timestamp :: "string \<Rightarrow> real option"
  to_timestamp :: "string \<Rightarrow> real option"

record episodes_table =
  from_ts_columns :: "string list"
  to_ts_columns :: "string list"
  table_rows :: "episode_row list"

record dataset_info =
  info_fps :: "real option"

record DataManager =
  dataset_root :: "path option"
  episodes_df :: "episodes_table option"
  info :: "dataset_info option"
  video_key :: "string option"
  manager_annotations :: annotations
  annotations_path :: "path option"
  annotations_file :: "annotations option"

record EpisodeTiming =
  fps :: real
  length_frames :: int
  duration :: real
  video_start_time :: real
  video_end_time :: real

definition episode_duration :: "int \<Rightarrow> real \<Rightarrow> real" where
  \<comment> \<open>\<^verbatim>\<open>length / fps if fps else 0.0\<close>\<close>
  "episode_duration len fps_val = (if fps_val \<noteq> 0 then of_int len / fps_val else 0)"

definition offsets_step ::
  "bool \<Rightarrow> string \<Rightarrow> real \<Rightarrow> episode_row \<Rightarrow> (int \<times> real \<times> real) list \<Rightarrow> (int \<times> real \<times> real) list" where
  \<comment> \<open>one round of the loop of \<^verbatim>\<open>_calculate_video_offsets\<close>: the entry of a row\<close>
  "offsets_step has_timestamp_cols vkey fps_val row result =
     (let ep_idx = episode_index row;
          dur = episode_duration (ep_length row) fps_val
      in if has_timestamp_cols then
           (case (from_timestamp row vkey, to_timestamp row vkey) of
              (Some from_ts, Some to_ts) \<Rightarrow> dict_set result ep_idx (from_ts, to_ts)
            | _ \<Rightarrow> dict_set result ep_idx (0, dur))
         else dict_set result ep_idx (0, dur))"

definition calculate_video_offsets :: "DataManager \<Rightarrow> string \<Rightarrow> real \<Rightarrow> (int \<times> real \<times> real) list" where
  \<comment> \<open>the result maps an episode index to \<open>(video_start_time, video_end_time)\<close>\<close>
  "calculate_video_offsets self vkey fps_val =
     (case episodes_df self of
        None \<Rightarrow> []
      | Some df \<Rightarrow>
          let has_timestamp_cols = (vkey \<in> set (from_ts_columns df) \<and> vkey \<in> set (to_ts_columns df))
          in fold (offsets_step has_timestamp_cols vkey fps_val) (table_rows df) [])"

definition opt_or :: "string option \<Rightarrow> string option \<Rightarrow> string option" where
  \<comment> \<open>\<^verbatim>\<open>a or b\<close> on optional strings: \<^verbatim>\<open>None\<close> and the empty string are false\<close>
  "opt_or a b = (case a of None \<Rightarrow> b | Some s \<Rightarrow> if s = [] then b else Some s)"

definition get_episode_timing :: "DataManager \<Rightarrow> int \<Rightarrow> string option \<Rightarrow> py_error + EpisodeTiming" where
  "get_episode_timing manager ep vkey_arg =
     (case (episodes_df manager, info manager) of
        (Some df, Some meta) \<Rightarrow>
          (let vkey = opt_or vkey_arg (video_key manager);
               fps_val = (case info_fps meta of None \<Rightarrow> 30 | Some f \<Rightarrow> f)
           in case filter (\<lambda>r. episode_index r = ep) (table_rows df) of
                [] \<Rightarrow> Inl (ValueError ''Episode not found'')
              | row # others \<Rightarrow>
                  (let len = ep_length row;
                       dur = episode_duration len fps_val;
                       (start_time, end_time) =
                         (case vkey of
                            None \<Rightarrow> (0, dur)
                          | Some k \<Rightarrow>
                              if k = [] then (0, dur)
                              else (case map_of (calculate_video_offsets manager k fps_val) ep of
                                      None \<Rightarrow> (0, dur)
                                    | Some (s, e) \<Rightarrow> (s, e)))
                   in Inr \<lparr> fps = fps_val, length_frames = len, duration = dur,
                            video_start_time = start_time, video_end_time = end_time \<rparr>))
      | _ \<Rightarrow> Inl (ValueError ''dataset not loaded''))"

definition timing_row :: "int \<Rightarrow> int \<Rightarrow> real option \<Rightarrow> real option \<Rightarrow> episode_row" where
  \<comment> \<open>a row with the same two cells for every video key\<close>
  "timing_row ep len from_ts to_ts =
     \<lparr> episode_index = ep, ep_length = len, from_timestamp = (\<lambda>k. from_ts), to_timestamp = (\<lambda>k. to_ts) \<rparr>"

definition mixed_manager :: DataManager where
  \<comment> \<open>episode 0 has concatenation offsets, episode 1 has null cells\<close>
  "mixed_manager =
     \<lparr> dataset_root = Some ''dataset'',
       episodes_df = Some \<lparr> from_ts_columns = [''cam''], to_ts_columns = [''cam''],
                             table_rows = [timing_row 0 60 (Some 12.5) (Some 14.5),
                                           timing_row 1 90 None None] \<rparr>,
       info = Some \<lparr> info_fps = Some 30 \<rparr>,
       video_key = Some ''cam'',
       manager_annotations = [],
       annotations_path = None,
       annotations_file = None \<rparr>"

definition offsets_entry :: "bool \<Rightarrow> string \<Rightarrow> real \<Rightarrow> episode_row \<Rightarrow> real \<times> real" where
  \<comment> \<open>the value that one round of the loop stores for its row\<close>
  "offsets_entry has_cols vkey fps_val row =
     (case (has_cols, from_timestamp row vkey, to_timestamp row vkey) of
        (True, Some f, Some t) \<Rightarrow> (f, t)
      | _ \<Rightarrow> (0, episode_duration (ep_length row) fps_val))"

text \<open>
  The explicit offsets of an episode, in the words of the specification: both columns
  exist for the video stream and both cells of the episode are non-null.
\<close>

definition spec_explicit_offsets :: "episodes_table \<Rightarrow> string \<Rightarrow> episode_row \<Rightarrow> (real \<times> real) option" where
  "spec_explicit_offsets df vkey row =
     (if vkey \<in> set (from_ts_columns df) \<and> vkey \<in> set (to_ts_columns df) then
        (case from_timestamp row vkey of
           None \<Rightarrow> None
         | Some f \<Rightarrow> (case to_timestamp row vkey of None \<Rightarrow> None | Some t \<Rightarrow> Some (f, t)))
      else None)"

definition info_fps_or_default :: "dataset_info \<Rightarrow> real" where
  \<comment> \<open>\<^verbatim>\<open>float(info.get("fps", 30))\<close>\<close>
  "info_fps_or_default meta = (case info_fps meta of None \<Rightarrow> 30 | Some f \<Rightarrow> f)"

section \<open>The export call\<close>

text \<open>
  \<^verbatim>\<open>export_dataset\<close> checks that a dataset is loaded, prepares the output directory and
  copies the \<^verbatim>\<open>meta\<close> directory (steps on the file system, taken as a parameter: the
  error they raise, if any), and builds the two label tables. Its next statement is
  \<^verbatim>\<open>qa_df = build_qa_labels_dataframe(self.annotations, fps)\<close>. The name \<^verbatim>\<open>fps\<close> is
  neither a parameter nor a local of the function nor a global of the module, so the
  evaluation of the argument raises \<^verbatim>\<open>NameError\<close>: the statements after it, which
  would read the data files and assign the index columns of their rows, are not reached.
\<close>

record export_summary =
  summary_output_dir :: string
  summary_subtasks :: nat
  summary_tasks_high_level :: nat
  summary_qa_labels :: nat

definition export_dataset :: "py_error option \<Rightarrow> DataManager \<Rightarrow> py_error + export_summary" where
  "export_dataset directory_steps self =
     (if dataset_root self = None \<or> info self = None
      then Inl (HTTPException 400 ''Dataset not loaded'')
      else
        case directory_steps of
          Some e \<Rightarrow> Inl e
        | None \<Rightarrow>
            (case build_subtasks_dataframe (manager_annotations self) of
               (subtasks_df, subtask_map) \<Rightarrow>
                 (case build_high_level_dataframe (manager_annotations self) of
                    Inl e \<Rightarrow> Inl e
                  | Inr (tasks_df, task_map) \<Rightarrow> Inl (NameError ''fps''))))"

section \<open>Generation calls and the persistence of their results\<close>

text \<open>
  A generation call resolves its start time (resuming from the end of the last stored
  segment when asked to), runs the windowed generator, and stores the new segments in the
  annotations of the episode. The generator talks to the inference service and to the
  media cache; the model takes what it returns for a start time (a list of segments or
  an error) as a parameter, and so the configuration step before it. The annotation
  document on disk is the field \<open>annotations_file\<close>.
\<close>

datatype mode = Replace | Append

record AutoSubtasksRequest =
  sub_episode_index :: int
  sub_mode :: mode
  sub_start_time_s :: "real option"
  sub_resume_from_last :: "bool option"
  sub_merge_adjacent :: "bool option"

record AutoVQARequest =
  vqa_episode_index :: int
  vqa_mode :: mode
  vqa_start_time_s :: "real option"
  vqa_resume_from_last :: "bool option"

definition py_bool :: "bool option \<Rightarrow> bool" where
  \<comment> \<open>\<^verbatim>\<open>bool(x)\<close> for an optional flag\<close>
  "py_bool b = (case b of None \<Rightarrow> False | Some v \<Rightarrow> v)"

definition get_episode_annotations :: "DataManager \<Rightarrow> int \<Rightarrow> EpisodeAnnotations \<times> DataManager" where
  "get_episode_annotations self ep =
     (case map_of (manager_annotations self) ep of
        None \<Rightarrow>
          (let fresh = \<lparr>subtasks = [], high_levels = [], qa_labels = []\<rparr>
           in (fresh, self\<lparr>manager_annotations := dict_set (manager_annotations self) ep fresh\<rparr>))
      | Some ann \<Rightarrow> (ann, self))"

definition save_annotations :: "DataManager \<Rightarrow> DataManager" where
  \<comment> \<open>\<^verbatim>\<open>_save_annotations\<close>: the whole annotation state is written as one document\<close>
  "save_annotations self =
     (case annotations_path self of
        None \<Rightarrow> self
      | Some p \<Rightarrow> self\<lparr>annotations_file := Some (manager_annotations self)\<rparr>)"

definition py_isspace :: "char \<Rightarrow> bool" where
  \<comment> \<open>the characters that \<^verbatim>\<open>str.strip()\<close> removes, among the first 256 code points\<close>
  "py_isspace c = (of_char c \<in> {9, 10, 11, 12, 13, 28, 29, 30, 31, 32, 133, 160 :: nat})"

definition py_strip :: "string \<Rightarrow> string" where
  "py_strip s = rev (dropWhile py_isspace (rev (dropWhile py_isspace s)))"

definition dict_pop :: "('k \<times> 'v) list \<Rightarrow> 'k \<Rightarrow> ('k \<times> 'v) list" where
  \<comment> \<open>\<^verbatim>\<open>d.pop(k, None)\<close>, the value dropped\<close>
  "dict_pop d k = filter (\<lambda>(k', v). k' \<noteq> k) d"

definition normalize_response :: "segment \<Rightarrow> segment" where
  \<comment> \<open>the schema loop of \<^verbatim>\<open>generate_subtasks\<close>: \<^verbatim>\<open>robot_response\<close> becomes
      \<^verbatim>\<open>robot_utterance\<close>, and an empty \<^verbatim>\<open>robot_response\<close> is dropped\<close>
  "normalize_response s =
     (let f0 = seg_fields s;
          f1 = (if ''robot_utterance'' \<notin> fst ` set f0 \<and> ''robot_response'' \<in> fst ` set f0
                then dict_pop (dict_set f0 ''robot_utterance'' (seg_get s ''robot_response'' (PyStr '''')))
                       ''robot_response''
                else f0);
          f2 = (if ''robot_response'' \<in> fst ` set f1 \<and>
                   (case map_of f1 ''robot_response'' of
                      None \<Rightarrow> True
                    | Some PyNone \<Rightarrow> True
                    | Some (PyStr v) \<Rightarrow> py_strip v = [])
                then dict_pop f1 ''robot_response'' else f1)
      in s\<lparr>seg_fields := f2\<rparr>)"

definition generate_subtasks ::
  "py_error option \<Rightarrow> (real option \<Rightarrow> py_error + segment list) \<Rightarrow> DataManager \<Rightarrow> AutoSubtasksRequest \<Rightarrow>
   (py_error + segment list) \<times> DataManager" where
  "generate_subtasks prepared gen manager req =
     (case prepared of
        Some e \<Rightarrow> (Inl e, manager)
      | None \<Rightarrow>
          let ep = sub_episode_index req;
              (start_time_s, manager1) =
                (if sub_start_time_s req = None \<and> py_bool (sub_resume_from_last req) then
                   (case get_episode_annotations manager ep of
                      (ann0, m) \<Rightarrow>
                        (if subtasks ann0 \<noteq> [] then seg_end (last (subtasks ann0)) else None, m))
                 else (sub_start_time_s req, manager))
          in case gen start_time_s of
               Inl e \<Rightarrow> (Inl e, manager1)
             | Inr generated \<Rightarrow>
                 let merged = (if py_bool (sub_merge_adjacent req)
                               then merge_adjacent_subtasks generated else generated);
                     segments = map normalize_response merged
                 in case get_episode_annotations manager1 ep of
                      (ann, manager2) \<Rightarrow>
                        let stored = (if sub_mode req = Replace then segments
                                      else subtasks ann @ segments);
                            manager3 = manager2\<lparr>manager_annotations :=
                              dict_set (manager_annotations manager2) ep (ann\<lparr>subtasks := stored\<rparr>)\<rparr>
                        in (Inr segments, save_annotations manager3))"

definition generate_fake_vqa ::
  "py_error option \<Rightarrow> (real option \<Rightarrow> py_error + segment list) \<Rightarrow> DataManager \<Rightarrow> AutoVQARequest \<Rightarrow>
   (py_error + segment list) \<times> DataManager" where
  "generate_fake_vqa prepared gen manager req =
     (case prepared of
        Some e \<Rightarrow> (Inl e, manager)
      | None \<Rightarrow>
          let ep = vqa_episode_index req;
              (start_time_s, manager1) =
                (if vqa_start_time_s req = None \<and> py_bool (vqa_resume_from_last req) then
                   (case get_episode_annotations manager ep of
                      (ann0, m) \<Rightarrow>
                        (if high_levels ann0 \<noteq> [] then seg_end (last (high_levels ann0)) else None, m))
                 else (vqa_start_time_s req, manager))
          in case gen start_time_s of
               Inl e \<Rightarrow> (Inl e, manager1)
             | Inr segments \<Rightarrow>
                 (case get_episode_annotations manager1 ep of
                    (ann, manager2) \<Rightarrow>
                      let effective_mode = (if py_bool (vqa_resume_from_last req) then Append
                                            else vqa_mode req);
                          stored = (if effective_mode = Replace then segments
                                    else high_levels ann @ segments);
                          manager3 = manager2\<lparr>manager_annotations :=
                            dict_set (manager_annotations manager2) ep (ann\<lparr>high_levels := stored\<rparr>)\<rparr>
                      in (Inr segments, save_annotations manager3)))"

definition stored_subtasks :: "DataManager \<Rightarrow> int \<Rightarrow> segment list" where
  \<comment> \<open>the subtask list stored for an episode, empty when the episode has no entry\<close>
  "stored_subtasks manager ep =
     (case map_of (manager_annotations manager) ep of None \<Rightarrow> [] | Some ann \<Rightarrow> subtasks ann)"

definition stored_high_levels :: "DataManager \<Rightarrow> int \<Rightarrow> segment list" where
  "stored_high_levels manager ep =
     (case map_of (manager_annotations manager) ep of None \<Rightarrow> [] | Some ann \<Rightarrow> high_levels ann)"

definition resume_manager :: DataManager where
  \<comment> \<open>episode 0 has one subtask and one question/answer pair\<close>
  "resume_manager =
     \<lparr> dataset_root = None, episodes_df = None, info = None, video_key = None,
       manager_annotations =
         [(0, \<lparr>subtasks = [labelled 0 2 ''a''], high_levels = [high_level 0 2 ''q'' ''r''],
               qa_labels = []\<rparr>)],
       annotations_path = Some ''lerobot_annotations.json'',
       annotations_file = None \<rparr>"

definition resume_subtasks_request :: AutoSubtasksRequest where
  "resume_subtasks_request =
     \<lparr> sub_episode_index = 0, sub_mode = Replace, sub_start_time_s = None,
       sub_resume_from_last = Some True, sub_merge_adjacent = Some True \<rparr>"

definition resume_vqa_request :: AutoVQARequest where
  "resume_vqa_request =
     \<lparr> vqa_episode_index = 0, vqa_mode = Replace, vqa_start_time_s = None,
       vqa_resume_from_last = Some True \<rparr>"

section \<open>Structured-output extraction\<close>

text \<open>
  \<^verbatim>\<open>json.loads\<close> is a parameter of \<open>extract_json_object\<close>: a function from the text to
  the decoded value, or to the error it raises. \<open>json_loads\<close> below is a decoder for the
  JSON grammar that the Python decoder accepts by default, used to run the extraction
  on examples; it keeps strings and numbers as their source text.
\<close>

datatype json =
    JNull
  | JBool bool
  | JNum string
  | JStr string
  | JArr "json list"
  | JObj "(string \<times> json) list"

definition is_dict :: "json \<Rightarrow> bool" where
  \<comment> \<open>\<^verbatim>\<open>isinstance(obj, dict)\<close>\<close>
  "is_dict v = (case v of JObj members \<Rightarrow> True | _ \<Rightarrow> False)"

definition dquote :: char where
  "dquote = CHR 0x22"

definition backslash :: char where
  "backslash = CHR 0x5C"

definition json_ws :: "char \<Rightarrow> bool" where
  "json_ws c = (c = CHR '' '' \<or> c = CHR 0x09 \<or> c = CHR 0x0A \<or> c = CHR 0x0D)"

definition skip_ws :: "string \<Rightarrow> string" where
  "skip_ws s = dropWhile json_ws s"

definition is_digit :: "char \<Rightarrow> bool" where
  "is_digit c = (48 \<le> (of_char c :: nat) \<and> (of_char c :: nat) \<le> 57)"

definition is_hex :: "char \<Rightarrow> bool" where
  "is_hex c = (is_digit c \<or> (65 \<le> (of_char c :: nat) \<and> (of_char c :: nat) \<le> 70)
                \<or> (97 \<le> (of_char c :: nat) \<and> (of_char c :: nat) \<le> 102))"

fun scan_string :: "string \<Rightarrow> string \<Rightarrow> (string \<times> string) option" where
  \<comment> \<open>after the opening quote: the text of the string up to the closing quote, and the rest\<close>
  "scan_string acc [] = None"
| "scan_string acc [c] = (if c = dquote then Some (acc, []) else None)"
| "scan_string acc (c # d # rest) =
     (if c = dquote then Some (acc, d # rest)
      else if c = backslash then
        (if d = CHR ''u'' then
           (case rest of
              h1 # h2 # h3 # h4 # rest' \<Rightarrow>
                if is_hex h1 \<and> is_hex h2 \<and> is_hex h3 \<and> is_hex h4
                then scan_string (acc @ [c, d, h1, h2, h3, h4]) rest' else None
            | _ \<Rightarrow> None)
         else if d \<in> set [dquote, backslash, CHR ''/'', CHR ''b'', CHR ''f'', CHR ''n'', CHR ''r'', CHR ''t'']
         then scan_string (acc @ [c, d]) rest
         else None)
      else if (of_char c :: nat) < 32 then None
      else scan_string (acc @ [c]) (d # rest))"

definition scan_digits :: "string \<Rightarrow> string \<times> string" where
  "scan_digits s = (takeWhile is_digit s, dropWhile is_digit s)"

definition scan_number :: "string \<Rightarrow> (string \<times> string) option" where
  \<comment> \<open>the longest prefix of the form \<^verbatim>\<open>-?(0|[1-9][0-9]*)(\.[0-9]+)?([eE][-+]?[0-9]+)?\<close>\<close>
  "scan_number s =
     (let (sign, s1) = (case s of c # r \<Rightarrow> if c = CHR ''-'' then ([c], r) else ([], s) | [] \<Rightarrow> ([], s));
          (ipart, s2) = (case s1 of c # r \<Rightarrow> if c = CHR ''0'' then ([c], r) else scan_digits s1
                         | [] \<Rightarrow> ([], s1))
      in if ipart = [] then None
         else
           let (frac, s3) = (case s2 of
                               c # r \<Rightarrow>
                                 if c = CHR ''.'' \<and> fst (scan_digits r) \<noteq> []
                                 then (c # fst (scan_digits r), snd (scan_digits r)) else ([], s2)
                             | [] \<Rightarrow> ([], s2));
               (ex, s4) = (case s3 of
                             c # r \<Rightarrow>
                               if c = CHR ''e'' \<or> c = CHR ''E'' then
                                 (let (sg, r1) = (case r of
                                                    g # r' \<Rightarrow> if g = CHR ''+'' \<or> g = CHR ''-''
                                                              then ([g], r') else ([], r)
                                                  | [] \<Rightarrow> ([], r))
                                  in if fst (scan_digits r1) \<noteq> []
                                     then (c # sg @ fst (scan_digits r1), snd (scan_digits r1))
                                     else ([], s3))
                               else ([], s3)
                           | [] \<Rightarrow> ([], s3))
           in Some (sign @ ipart @ frac @ ex, s4))"

definition strip_prefix :: "string \<Rightarrow> string \<Rightarrow> string option" where
  \<comment> \<open>the rest of the text after the given prefix\<close>
  "strip_prefix p s = (if take (length p) s = p then Some (drop (length p) s) else None)"

fun scan_value :: "nat \<Rightarrow> string \<Rightarrow> (json \<times> string) option"
  and scan_array :: "nat \<Rightarrow> json list \<Rightarrow> string \<Rightarrow> (json \<times> string) option"
  and scan_object :: "nat \<Rightarrow> (string \<times> json) list \<Rightarrow> string \<Rightarrow> (json \<times> string) option" where
  \<comment> \<open>the first argument bounds the number of nested calls; the length of the text is enough\<close>
  "scan_value 0 s = None"
| "scan_value (Suc n) [] = None"
| "scan_value (Suc n) (c # rest) =
     (if c = dquote then
        (case scan_string [] rest of None \<Rightarrow> None | Some (str, r) \<Rightarrow> Some (JStr str, r))
      else if c = CHR ''{'' then
        (case skip_ws rest of
           [] \<Rightarrow> None
         | d # r \<Rightarrow> if d = CHR ''}'' then Some (JObj [], r) else scan_object n [] (d # r))
      else if c = CHR ''['' then
        (case skip_ws rest of
           [] \<Rightarrow> None
         | d # r \<Rightarrow> if d = CHR '']'' then Some (JArr [], r) else scan_array n [] (d # r))
      else
        (case strip_prefix ''null'' (c # rest) of
           Some r \<Rightarrow> Some (JNull, r)
         | None \<Rightarrow>
        (case strip_prefix ''true'' (c # rest) of
           Some r \<Rightarrow> Some (JBool True, r)
         | None \<Rightarrow>
        (case strip_prefix ''false'' (c # rest) of
           Some r \<Rightarrow> Some (JBool False, r)
         | None \<Rightarrow>
        (case scan_number (c # rest) of
           Some (lexeme, r) \<Rightarrow> Some (JNum lexeme, r)
         | None \<Rightarrow>
        (case strip_prefix ''NaN'' (c # rest) of
           Some r \<Rightarrow> Some (JNum ''NaN'', r)
         | None \<Rightarrow>
        (case strip_prefix ''Infinity'' (c # rest) of
           Some r \<Rightarrow> Some (JNum ''Infinity'', r)
         | None \<Rightarrow>
        (case strip_prefix ''-Infinity'' (c # rest) of
           Some r \<Rightarrow> Some (JNum ''-Infinity'', r)
         | None \<Rightarrow> None))))))))"
| "scan_array 0 acc s = None"
| "scan_array (Suc n) acc s =
     (case scan_value n s of
        None \<Rightarrow> None
      | Some (v, r) \<Rightarrow>
          (case skip_ws r of
             [] \<Rightarrow> None
           | d # r' \<Rightarrow>
               if d = CHR '']'' then Some (JArr (acc @ [v]), r')
               else if d = CHR '','' then scan_array n (acc @ [v]) (skip_ws r')
               else None))"
| "scan_object 0 acc s = None"
| "scan_object (Suc n) acc [] = None"
| "scan_object (Suc n) acc (q # s) =
     (if q \<noteq> dquote then None
      else
        (case scan_string [] s of
           None \<Rightarrow> None
         | Some (k, r1) \<Rightarrow>
             (case skip_ws r1 of
                [] \<Rightarrow> None
              | colon # r2 \<Rightarrow>
                  if colon \<noteq> CHR '':'' then None
                  else
                    (case scan_value n (skip_ws r2) of
                       None \<Rightarrow> None
                     | Some (v, r3) \<Rightarrow>
                         (case skip_ws r3 of
                            [] \<Rightarrow> None
                          | d # r4 \<Rightarrow>
                              if d = CHR ''}'' then Some (JObj (dict_set acc k v), r4)
                              else if d = CHR '','' then scan_object n (dict_set acc k v) (skip_ws r4)
                              else None)))))"

definition json_loads :: "string \<Rightarrow> py_error + json" where
  "json_loads s =
     (case scan_value (Suc (length s)) (skip_ws s) of
        None \<Rightarrow> Inl JSONDecodeError
      | Some (v, r) \<Rightarrow> if skip_ws r = [] then Inr v else Inl JSONDecodeError)"

text \<open>
  The search of the pattern
  \<^verbatim>\<open>```(?:json)?\s*(\{[\s\S]*?\})\s*```\<close> (ignoring case): the captured group of the
  leftmost match. The group runs from the brace to the first closing brace that is
  followed by optional white space and three backticks.
\<close>

definition fence :: string where
  "fence = ''```''"

definition lower_ascii :: "char \<Rightarrow> char" where
  "lower_ascii c =
     (if 65 \<le> (of_char c :: nat) \<and> (of_char c :: nat) \<le> 90 then char_of (of_char c + 32 :: nat) else c)"

fun close_group :: "string \<Rightarrow> string \<Rightarrow> string option" where
  \<comment> \<open>the lazy part of the group: \<open>acc\<close> is the group so far\<close>
  "close_group acc [] = None"
| "close_group acc (c # rest) =
     (if c = CHR ''}'' \<and> strip_prefix fence (dropWhile py_isspace rest) \<noteq> None
      then Some (acc @ [c])
      else close_group (acc @ [c]) rest)"

definition match_block_here :: "string \<Rightarrow> string option" where
  \<comment> \<open>a match of the pattern at the start of the text\<close>
  "match_block_here s =
     (case strip_prefix fence s of
        None \<Rightarrow> None
      | Some r \<Rightarrow>
          let r1 = (if map lower_ascii (take 4 r) = ''json'' then drop 4 r else r);
              r2 = dropWhile py_isspace r1
          in (case r2 of
                [] \<Rightarrow> None
              | c # body \<Rightarrow> if c = CHR ''{'' then close_group [c] body else None))"

fun json_block_search :: "string \<Rightarrow> string option" where
  \<comment> \<open>\<^verbatim>\<open>_JSON_BLOCK_RE.search(text)\<close>, the group 1 of the match\<close>
  "json_block_search [] = match_block_here []"
| "json_block_search (c # rest) =
     (case match_block_here (c # rest) of
        Some g \<Rightarrow> Some g
      | None \<Rightarrow> json_block_search rest)"

fun find_from :: "char \<Rightarrow> int \<Rightarrow> string \<Rightarrow> int" where
  "find_from c i [] = - 1"
| "find_from c i (d # rest) = (if d = c then i else find_from c (i + 1) rest)"

definition str_find :: "string \<Rightarrow> char \<Rightarrow> int" where
  \<comment> \<open>\<^verbatim>\<open>text.find(c)\<close>\<close>
  "str_find s c = find_from c 0 s"

definition str_rfind :: "string \<Rightarrow> char \<Rightarrow> int" where
  \<comment> \<open>\<^verbatim>\<open>text.rfind(c)\<close>\<close>
  "str_rfind s c =
     (let k = find_from c 0 (rev s) in if k = - 1 then - 1 else int (length s) - 1 - k)"

definition str_slice :: "string \<Rightarrow> int \<Rightarrow> int \<Rightarrow> string" where
  \<comment> \<open>\<^verbatim>\<open>text[a:b]\<close> for \<open>0 \<le> a \<le> b\<close>\<close>
  "str_slice s a b = take (nat (b - a)) (drop (nat a) s)"

definition extract_json_object :: "(string \<Rightarrow> py_error + json) \<Rightarrow> string \<Rightarrow> py_error + json" where
  "extract_json_object loads text0 =
     (let text = py_strip text0 in
      if text = [] then Inl (ValueError ''empty model output'')
      else
        case (case loads text of Inl e \<Rightarrow> None | Inr obj \<Rightarrow> if is_dict obj then Some obj else None) of
          Some obj \<Rightarrow> Inr obj
        | None \<Rightarrow>
            (case (case json_block_search text of
                     None \<Rightarrow> Inr None
                   | Some candidate \<Rightarrow>
                       (case loads candidate of
                          Inl e \<Rightarrow> Inl e
                        | Inr obj \<Rightarrow> Inr (if is_dict obj then Some obj else None))) of
               Inl e \<Rightarrow> Inl e
             | Inr (Some obj) \<Rightarrow> Inr obj
             | Inr None \<Rightarrow>
                 (let start = str_find text (CHR ''{'');
                      end = str_rfind text (CHR ''}'')
                  in case (if start \<noteq> - 1 \<and> end \<noteq> - 1 \<and> start < end then
                             (case loads (str_slice text start (end + 1)) of
                                Inl e \<Rightarrow> Inl e
                              | Inr obj \<Rightarrow> Inr (if is_dict obj then Some obj else None))
                           else Inr None) of
                       Inl e \<Rightarrow> Inl e
                     | Inr (Some obj) \<Rightarrow> Inr obj
                     | Inr None \<Rightarrow> Inl (ValueError ''could not parse JSON object from model output''))))"

text \<open>
  The three strategies in the words of the specification: each one yields a mapping or
  nothing, and the first mapping wins.
\<close>

definition spec_try :: "(string \<Rightarrow> py_error + json) \<Rightarrow> string option \<Rightarrow> json option" where
  "spec_try loads candidate =
     (case candidate of
        None \<Rightarrow> None
      | Some c \<Rightarrow> (case loads c of Inl e \<Rightarrow> None | Inr obj \<Rightarrow> if is_dict obj then Some obj else None))"

definition spec_brace_span :: "string \<Rightarrow> string option" where
  "spec_brace_span text =
     (if str_find text (CHR ''{'') \<noteq> - 1 \<and> str_rfind text (CHR ''}'') \<noteq> - 1
         \<and> str_find text (CHR ''{'') < str_rfind text (CHR ''}'')
      then Some (str_slice text (str_find text (CHR ''{'')) (str_rfind text (CHR ''}'') + 1))
      else None)"

definition spec_extract :: "(string \<Rightarrow> py_error + json) \<Rightarrow> string \<Rightarrow> json option" where
  "spec_extract loads text0 =
     (let text = py_strip text0 in
      if text = [] then None
      else case spec_try loads (Some text) of
             Some obj \<Rightarrow> Some obj
           | None \<Rightarrow>
               (case spec_try loads (json_block_search text) of
                  Some obj \<Rightarrow> Some obj
                | None \<Rightarrow> spec_try loads (spec_brace_span text)))"

definition fenced_in_string :: string where
  \<comment> \<open>prose, then an object whose string value holds a fenced snippet\<close>
  \<open>fenced_in_string = ''x{"a":"```{b}```"}''\<close>

section \<open>Interval assignment: the loops compute the first match\<close>

lemma scan_segments_find:
  assumes "\<And>seg. seg \<in> set full \<Longrightarrow> seg_label label_key seg = Inr (lbl seg)"
    and "rest = drop i full"
  shows "scan_segments mapping label_key ts (length full) i rest =
         Inr (map_option (\<lambda>j. mapping_get mapping (lbl (full ! j)))
               (find (spec_contains full ts) [i..<length full]))"
  using assms(2)
proof (induction rest arbitrary: i)
  case Nil
  then have "length full \<le> i" by simp
  then show ?case by simp
next
  case (Cons seg rest)
  then have i: "i < length full" by (metis drop_all list.distinct(1) not_le)
  from Cons.prems i have seg: "seg = full ! i" and rest: "rest = drop (Suc i) full"
    by (simp_all add: Cons_nth_drop_Suc [symmetric])
  have mem: "seg \<in> set full" using seg i by simp
  have last: "(int i = int (length full) - 1) = (Suc i = length full)" by auto
  have upt: "[i..<length full] = i # [Suc i..<length full]" using i by (simp add: upt_conv_Cons)
  show ?case
    using Cons.IH [OF rest] assms(1) [OF mem]
    by (simp add: upt spec_contains_def seg [symmetric] last Let_def)
qed

lemma assign_loop_spec:
  assumes "\<And>seg. seg \<in> set sorted_segs \<Longrightarrow> seg_label label_key seg = Inr (lbl seg)"
    and "length vals = i + length tss"
    and "\<And>p. i \<le> p \<Longrightarrow> p < length vals \<Longrightarrow> vals ! p = - 1"
  shows "assign_loop mapping label_key sorted_segs i tss vals =
         Inr (take i vals @ map (spec_assign mapping lbl sorted_segs) tss)"
  using assms(2,3)
proof (induction tss arbitrary: i vals)
  case Nil
  then show ?case by simp
next
  case (Cons ts rest)
  have scan: "scan_segments mapping label_key ts (length sorted_segs) 0 sorted_segs =
      Inr (map_option (\<lambda>j. mapping_get mapping (lbl (sorted_segs ! j))) (spec_first_match sorted_segs ts))"
    using scan_segments_find [of sorted_segs label_key lbl sorted_segs 0 mapping ts] assms(1)
    by (simp add: spec_first_match_def)
  have i: "i < length vals" using Cons.prems(1) by simp
  show ?case
  proof (cases "spec_first_match sorted_segs ts")
    case None
    have "assign_loop mapping label_key sorted_segs (Suc i) rest vals =
          Inr (take (Suc i) vals @ map (spec_assign mapping lbl sorted_segs) rest)"
      using Cons.prems by (intro Cons.IH) auto
    moreover have "vals ! i = - 1" using Cons.prems(2) [of i] i by simp
    ultimately show ?thesis
      using None i by (simp add: scan spec_assign_def take_Suc_conv_app_nth)
  next
    case (Some j)
    let ?v = "mapping_get mapping (lbl (sorted_segs ! j))"
    have "assign_loop mapping label_key sorted_segs (Suc i) rest (vals[i := ?v]) =
          Inr (take (Suc i) (vals[i := ?v]) @ map (spec_assign mapping lbl sorted_segs) rest)"
      using Cons.prems by (intro Cons.IH) auto
    then show ?thesis
      using Some i by (simp add: scan spec_assign_def take_Suc_conv_app_nth)
  qed
qed

lemma assign_indices_general:
  assumes "\<And>seg. seg \<in> set segments \<Longrightarrow> seg_label label_key seg = Inr (lbl seg)"
  shows "assign_indices_by_segments timestamps segments mapping label_key =
       Inr (map (spec_assign mapping lbl (sort_key get_start segments)) timestamps)"
proof (cases "segments = []")
  case True
  have "map (spec_assign mapping lbl []) timestamps = replicate (length timestamps) (- 1)"
    by (induction timestamps) (simp_all add: spec_assign_def spec_first_match_def)
  with True show ?thesis
    by (simp add: assign_indices_by_segments_def)
next
  case False
  have "assign_loop mapping label_key (sort_key get_start segments) 0 timestamps
          (replicate (length timestamps) (- 1)) =
        Inr (take 0 (replicate (length timestamps) (- 1)) @
             map (spec_assign mapping lbl (sort_key get_start segments)) timestamps)"
    using assms by (intro assign_loop_spec) auto
  then show ?thesis using False by (simp add: assign_indices_by_segments_def)
qed

lemma seg_label_field:
  "label_key \<noteq> ''task_key'' \<Longrightarrow>
   seg_label label_key seg = Inr (seg_get seg label_key (PyStr ''''))"
  by (simp add: seg_label_def)

lemma boundary_example:
  "assign_indices_by_segments [0, 0.999, 1.0, 1.999, 2.0] boundary_segments
     [''L0'' \<mapsto> 0, ''L1'' \<mapsto> 1] ''label'' = Inr [0, 0, 1, 1, 1]"
  by (simp add: assign_indices_by_segments_def boundary_segments_def get_start_def get_end_def
      seg_label_def seg_get_def mapping_get_def)

text \<open>
  C1. Interval assignment sorts the segments by start (ascending, a permutation of the
  input) and gives every timestamp the mapped index of the label of the first sorted
  segment with \<open>start \<le> ts < end\<close>, or, for the last sorted segment, with
  \<open>ts \<le> end\<close>; a timestamp that no segment matches gets \<open>-1\<close>. On the segments
  \<open>[(0,1,L0),(1,2,L1)]\<close> and the timestamps \<open>[0, 0.999, 1.0, 1.999, 2.0]\<close> the
  indices are \<open>[0,0,1,1,1]\<close>. The hypothesis says that the label of every segment can
  be computed (it always can unless the key is the task key and a joined field is
  \<^verbatim>\<open>None\<close>).
\<close>

theorem assign_indices_first_match:
  assumes "\<forall>seg\<in>set segments. seg_label label_key seg = Inr (lbl seg)"
  shows "assign_indices_by_segments timestamps segments mapping label_key =
           Inr (map (spec_assign mapping lbl (sort_key get_start segments)) timestamps)
       \<and> sorted (map get_start (sort_key get_start segments))
       \<and> mset (sort_key get_start segments) = mset segments
       \<and> assign_indices_by_segments [0, 0.999, 1.0, 1.999, 2.0] boundary_segments
             [''L0'' \<mapsto> 0, ''L1'' \<mapsto> 1] ''label'' = Inr [0, 0, 1, 1, 1]"
  using assms assign_indices_general [of segments label_key lbl timestamps mapping] boundary_example
  by simp

theorem assign_indices_first_match_witness:
  "seg_label ''label'' (boundary_segments ! 0) = Inr (PyStr ''L0'')
   \<and> seg_label ''label'' (boundary_segments ! 1) = Inr (PyStr ''L1'')
   \<and> assign_indices_by_segments [0.5, 1, 2, 3] boundary_segments [''L0'' \<mapsto> 0, ''L1'' \<mapsto> 1] ''label''
       = Inr [0, 1, 1, - 1]"
proof -
  have h: "\<forall>seg\<in>set boundary_segments. seg_label ''label'' seg = Inr (seg_get seg ''label'' (PyStr ''''))"
    by (simp add: seg_label_def)
  have s: "sort_key get_start boundary_segments = boundary_segments"
    by (simp add: boundary_segments_def get_start_def)
  show ?thesis
    using assign_indices_first_match [OF h, of "[0.5, 1, 2, 3]" "[''L0'' \<mapsto> 0, ''L1'' \<mapsto> 1]"]
    by (simp add: s seg_label_def spec_assign_def spec_first_match_def spec_contains_def boundary_segments_def
        get_start_def get_end_def seg_get_def mapping_get_def)
qed

section \<open>The label tables: sorted labels, first-seen task keys\<close>

lemma map_swap_zip:
  "map (\<lambda>(idx, label). (label, f idx)) (zip js xs) = zip xs (map f js)"
proof (induction js arbitrary: xs)
  case Nil
  then show ?case by simp
next
  case (Cons j js)
  then show ?case by (cases xs) simp_all
qed

lemma numbering_enumerate:
  "map (\<lambda>(idx, label). (label, int idx)) (enumerate 0 xs) = spec_numbering xs"
  by (simp add: spec_numbering_def enumerate_eq_zip map_swap_zip)

lemma fold_dict_set_enumerate:
  "distinct xs \<Longrightarrow> set xs \<inter> fst ` set acc = {} \<Longrightarrow>
   fold (\<lambda>(idx, label) d. dict_set d label (int idx)) (enumerate n xs) acc =
   acc @ map (\<lambda>(idx, label). (label, int idx)) (enumerate n xs)"
proof (induction xs arbitrary: n acc)
  case Nil
  then show ?case by simp
next
  case (Cons x xs)
  have "set xs \<inter> fst ` set (acc @ [(x, int n)]) = {}"
    using Cons.prems by auto
  with Cons.prems Cons.IH [of "acc @ [(x, int n)]" "Suc n"] show ?case
    by (auto simp: dict_set_def)
qed

lemma build_subtasks_map:
  "snd (build_subtasks_dataframe annotations) =
   spec_numbering (sort (remdups (subtask_label_values annotations)))"
  using fold_dict_set_enumerate [of "sort (remdups (subtask_label_values annotations))" "[]" 0]
  by (simp add: build_subtasks_dataframe_def numbering_enumerate Let_def)

lemma subtask_label_values_set:
  "set (subtask_label_values annotations) =
   {s. s \<noteq> [] \<and> (\<exists>ann \<in> snd ` set annotations. \<exists>seg \<in> set (subtasks ann). seg_get seg ''label'' PyNone = PyStr s)}"
  by (force simp: subtask_label_values_def dict_values_def truthy_def split: pyval.splits)

lemma spec_numbering_keys: "map fst (spec_numbering xs) = xs"
  by (simp add: spec_numbering_def)

lemma spec_numbering_vals: "map snd (spec_numbering xs) = map int [0..<length xs]"
  by (simp add: spec_numbering_def)

lemma spec_numbering_length: "length (spec_numbering xs) = length xs"
  by (simp add: spec_numbering_def)

lemma spec_numbering_snoc:
  "spec_numbering (xs @ [x]) = spec_numbering xs @ [(x, int (length xs))]"
  by (simp add: spec_numbering_def)

lemma removeAll_filter_notin:
  "removeAll k (filter (\<lambda>x. x \<notin> set ks) xs) = filter (\<lambda>x. x \<notin> set (ks @ [k])) xs"
  by (induction xs) auto

lemma high_level_loop_first_seen:
  assumes "map make_task_key segs = map Inr keys"
    and "distinct ks"
  shows "\<exists>tasks'. high_level_loop segs tasks (spec_numbering ks) =
           Inr (tasks @ tasks', spec_numbering (ks @ spec_first_seen (filter (\<lambda>x. x \<notin> set ks) keys)))
         \<and> set tasks' \<subseteq> set segs"
  using assms
proof (induction segs arbitrary: keys ks tasks)
  case Nil
  then show ?case by simp
next
  case (Cons seg segs)
  then obtain k rest where keys: "keys = k # rest" and k: "make_task_key seg = Inr k"
    and rest: "map make_task_key segs = map Inr rest"
    by (cases keys) auto
  show ?case
  proof (cases "k \<in> set ks")
    case True
    from Cons.IH [OF rest Cons.prems(2), of tasks] obtain tasks' where
      "high_level_loop segs tasks (spec_numbering ks) =
         Inr (tasks @ tasks', spec_numbering (ks @ spec_first_seen (filter (\<lambda>x. x \<notin> set ks) rest)))"
      "set tasks' \<subseteq> set segs" by blast
    with True k keys show ?thesis
      by (auto simp: spec_numbering_keys [THEN arg_cong, of set, simplified] image_set [symmetric] simp del: image_set intro!: exI [of _ tasks'])
  next
    case False
    have d: "distinct (ks @ [k])" using False Cons.prems(2) by simp
    from Cons.IH [OF rest d, of "tasks @ [seg]"] obtain tasks' where
      t: "high_level_loop segs (tasks @ [seg]) (spec_numbering (ks @ [k])) =
         Inr ((tasks @ [seg]) @ tasks',
              spec_numbering ((ks @ [k]) @ spec_first_seen (filter (\<lambda>x. x \<notin> set (ks @ [k])) rest)))"
      "set tasks' \<subseteq> set segs" by blast
    have notin: "k \<notin> fst ` set (spec_numbering ks)"
      using False spec_numbering_keys [of ks] by (metis image_set)
    have "high_level_loop (seg # segs) tasks (spec_numbering ks) =
          high_level_loop segs (tasks @ [seg]) (spec_numbering (ks @ [k]))"
      using k notin by (simp add: dict_set_def spec_numbering_snoc spec_numbering_length)
    with t False keys show ?thesis
      by (auto simp: removeAll_filter_notin intro!: exI [of _ "seg # tasks'"])
  qed
qed

lemma set_spec_first_seen: "set (spec_first_seen xs) = set xs"
proof (induction xs rule: spec_first_seen.induct)
  case 1
  then show ?case by simp
next
  case (2 x xs)
  then show ?case by auto
qed

lemma map_of_spec_numbering:
  "k \<in> set xs \<Longrightarrow> \<exists>i. map_of (spec_numbering xs) k = Some i"
  using spec_numbering_keys [of xs]
  by (metis domD dom_map_of_conv_image_fst image_set)

lemma high_level_rows_total:
  assumes "\<And>seg. seg \<in> set tasks \<Longrightarrow> \<exists>k. make_task_key seg = Inr k \<and> k \<in> set ks"
  shows "\<exists>rows. high_level_rows (spec_numbering ks) tasks = Inr rows"
  using assms
proof (induction tasks)
  case Nil
  then show ?case by simp
next
  case (Cons seg tasks)
  then obtain k where k: "make_task_key seg = Inr k" "k \<in> set ks" by auto
  then obtain i where i: "map_of (spec_numbering ks) k = Some i"
    using map_of_spec_numbering by blast
  from Cons obtain rows where "high_level_rows (spec_numbering ks) tasks = Inr rows" by auto
  with k i show ?case by simp
qed

lemma make_task_key_of_map:
  assumes "map make_task_key segs = map Inr keys" and "seg \<in> set segs"
  shows "\<exists>k. make_task_key seg = Inr k \<and> k \<in> set keys"
proof -
  from assms(2) obtain n where n: "n < length segs" "segs ! n = seg"
    by (auto simp: in_set_conv_nth)
  have len: "length keys = length segs" using assms(1) by (metis length_map)
  have "map make_task_key segs ! n = map Inr keys ! n" using assms(1) by simp
  with n len have "make_task_key seg = Inr (keys ! n)" by simp
  moreover have "keys ! n \<in> set keys" using n len by simp
  ultimately show ?thesis by blast
qed

lemma build_high_level_first_seen:
  assumes "map make_task_key (all_high_levels annotations) = map Inr keys"
  shows "\<exists>rows. build_high_level_dataframe annotations =
           Inr (rows, spec_numbering (spec_first_seen keys))"
proof -
  from high_level_loop_first_seen [OF assms, of "[]" "[]"]
  obtain tasks' where
    loop: "high_level_loop (all_high_levels annotations) [] [] = Inr (tasks', spec_numbering (spec_first_seen keys))"
    and sub: "set tasks' \<subseteq> set (all_high_levels annotations)"
    by (auto simp: spec_numbering_def)
  have "\<exists>rows. high_level_rows (spec_numbering (spec_first_seen keys)) tasks' = Inr rows"
  proof (rule high_level_rows_total)
    fix seg assume "seg \<in> set tasks'"
    with sub have "seg \<in> set (all_high_levels annotations)" by blast
    from make_task_key_of_map [OF assms this]
    show "\<exists>k. make_task_key seg = Inr k \<and> k \<in> set (spec_first_seen keys)"
      by (simp add: set_spec_first_seen)
  qed
  then obtain rows where "high_level_rows (spec_numbering (spec_first_seen keys)) tasks' = Inr rows" ..
  with loop show ?thesis by (simp add: build_high_level_dataframe_def)
qed

lemma subtask_map_keys:
  "map fst (snd (build_subtasks_dataframe annotations)) = sort (remdups (subtask_label_values annotations))"
  by (simp add: build_subtasks_map spec_numbering_keys)

lemma absent_empty_label:
  "absent_label (map_of (snd (build_subtasks_dataframe annotations))) (PyStr '''')"
proof -
  have "[] \<notin> set (subtask_label_values annotations)"
    by (simp add: subtask_label_values_set)
  then have "[] \<notin> set (map fst (snd (build_subtasks_dataframe annotations)))"
    by (simp add: subtask_map_keys)
  then show ?thesis
    by (simp add: absent_label_def map_of_eq_None_iff)
qed

lemma mapping_get_absent: "absent_label mapping l \<Longrightarrow> mapping_get mapping l = - 1"
  by (simp add: absent_label_def mapping_get_def split: pyval.splits)

section \<open>Claims about the export tables\<close>

lemma task_keys_in_order_map:
  "task_keys_in_order segs = Inr keys \<Longrightarrow> map make_task_key segs = map Inr keys"
proof (induction segs arbitrary: keys)
  case Nil
  then show ?case by simp
next
  case (Cons seg segs)
  then show ?case by (auto split: sum.splits)
qed

lemma high_level_loop_error:
  "task_keys_in_order segs = Inl e \<Longrightarrow> high_level_loop segs tasks task_map = Inl e"
proof (induction segs arbitrary: tasks task_map)
  case Nil
  then show ?case by simp
next
  case (Cons seg segs)
  then show ?case by (auto split: sum.splits)
qed

lemma build_high_level_total:
  "map_sum id snd (build_high_level_dataframe annotations) =
   map_sum id (\<lambda>keys. spec_numbering (spec_first_seen keys))
     (task_keys_in_order (all_high_levels annotations))"
proof (cases "task_keys_in_order (all_high_levels annotations)")
  case (Inl e)
  then show ?thesis
    by (simp add: build_high_level_dataframe_def high_level_loop_error)
next
  case (Inr keys)
  from build_high_level_first_seen [OF task_keys_in_order_map [OF Inr]]
  obtain rows where "build_high_level_dataframe annotations =
      Inr (rows, spec_numbering (spec_first_seen keys))" by blast
  with Inr show ?thesis by simp
qed

lemma export_dataset_raises:
  "export_dataset directory_steps self \<noteq> Inr summary"
  by (simp add: export_dataset_def split: option.splits prod.splits sum.splits)

lemma export_dataset_name_error:
  assumes "dataset_root self = Some dir" and "info self = Some meta"
    and "build_high_level_dataframe (manager_annotations self) = Inr tables"
  shows "export_dataset None self = Inl (NameError ''fps'')"
  using assms by (simp add: export_dataset_def split: prod.splits)

text \<open>
  C3 (as amended). Each of the two label-to-index mappings is built by one function of
  the whole annotation set, all episodes together. The subtask mapping numbers the
  distinct non-empty subtask labels of all episodes in ascending sorted order (not in
  first-seen order): its keys are exactly these labels, sorted and without duplicates,
  and its values are \<open>0, 1, 2, \<dots>\<close> in that order. The high-level mapping numbers the
  distinct task keys of all episodes in first-seen order; when the key of a segment
  cannot be built the construction ends with that error. A mapping has one index for a
  label text, whichever episodes the label occurs in.
\<close>

theorem label_tables_numbering:
  "map fst (snd (build_subtasks_dataframe annotations)) =
           sort (remdups (subtask_label_values annotations))
   \<and> map snd (snd (build_subtasks_dataframe annotations)) =
           map int [0..<length (snd (build_subtasks_dataframe annotations))]
   \<and> fst (build_subtasks_dataframe annotations) = snd (build_subtasks_dataframe annotations)
   \<and> sorted (map fst (snd (build_subtasks_dataframe annotations)))
   \<and> distinct (map fst (snd (build_subtasks_dataframe annotations)))
   \<and> set (map fst (snd (build_subtasks_dataframe annotations))) =
         {s. s \<noteq> [] \<and> (\<exists>ann \<in> snd ` set annotations. \<exists>seg \<in> set (subtasks ann).
                              seg_get seg ''label'' PyNone = PyStr s)}
   \<and> map_sum id snd (build_high_level_dataframe annotations) =
         map_sum id (\<lambda>keys. spec_numbering (spec_first_seen keys))
           (task_keys_in_order (all_high_levels annotations))"
proof -
  have vals: "map snd (snd (build_subtasks_dataframe annotations)) =
           map int [0..<length (snd (build_subtasks_dataframe annotations))]"
    by (simp add: build_subtasks_map spec_numbering_vals spec_numbering_length)
  have rows: "fst (build_subtasks_dataframe annotations) = snd (build_subtasks_dataframe annotations)"
    using build_subtasks_map [of annotations]
    by (simp add: build_subtasks_dataframe_def numbering_enumerate Let_def)
  have keys: "set (map fst (snd (build_subtasks_dataframe annotations))) =
         {s. s \<noteq> [] \<and> (\<exists>ann \<in> snd ` set annotations. \<exists>seg \<in> set (subtasks ann).
                              seg_get seg ''label'' PyNone = PyStr s)}"
    by (simp add: subtask_map_keys subtask_label_values_set)
  from vals rows keys build_high_level_total [of annotations] show ?thesis
    by (simp add: subtask_map_keys)
qed

theorem subtask_numbering_counterexample:
  "snd (build_subtasks_dataframe c3_annotations) = [(''a'', 0), (''b'', 1)]
   \<and> spec_numbering (spec_first_seen (subtask_label_values c3_annotations)) = [(''b'', 0), (''a'', 1)]
   \<and> snd (build_subtasks_dataframe c3_annotations) \<noteq>
       spec_numbering (spec_first_seen (subtask_label_values c3_annotations))"
  by (simp add: build_subtasks_dataframe_def subtask_label_values_def c3_annotations_def labelled_def
      dict_values_def seg_get_def truthy_def dict_set_def enumerate_eq_zip spec_numbering_def)

theorem label_tables_numbering_witness:
  "snd (build_subtasks_dataframe c3_shared_annotations) = [(''a'', 0), (''b'', 1)]
   \<and> map_sum id snd (build_high_level_dataframe c3_shared_annotations) =
       Inr [(''q2||r||||||'', 0), (''q1||r||||||'', 1)]
   \<and> map_sum id snd (build_high_level_dataframe unset_tag_annotations) = Inl TypeError"
proof -
  have vals: "subtask_label_values c3_shared_annotations = [''b'', ''a'', ''b'']"
    by (simp add: subtask_label_values_def c3_shared_annotations_def dict_values_def labelled_def
        seg_get_def truthy_def)
  note t = label_tables_numbering [of c3_shared_annotations]
  have k: "map fst (snd (build_subtasks_dataframe c3_shared_annotations)) = [''a'', ''b'']"
    using t by (simp add: vals)
  then have "length (map fst (snd (build_subtasks_dataframe c3_shared_annotations))) = 2"
    by simp
  then have len: "length (snd (build_subtasks_dataframe c3_shared_annotations)) = 2"
    by simp
  have v: "map snd (snd (build_subtasks_dataframe c3_shared_annotations)) = [0, 1]"
    using t by (simp add: len upt_rec)
  have "snd (build_subtasks_dataframe c3_shared_annotations) =
        zip (map fst (snd (build_subtasks_dataframe c3_shared_annotations)))
            (map snd (snd (build_subtasks_dataframe c3_shared_annotations)))"
    by (simp add: zip_map_fst_snd)
  then have sub: "snd (build_subtasks_dataframe c3_shared_annotations) = [(''a'', 0), (''b'', 1)]"
    unfolding k v by simp
  have keys: "task_keys_in_order (all_high_levels c3_shared_annotations) =
     Inr [''q2||r||||||'', ''q1||r||||||'', ''q2||r||||||'']"
    by (simp add: all_high_levels_def c3_shared_annotations_def dict_values_def make_task_key_def
        high_level_def seg_get_def py_or_def truthy_def str_join_def)
  have bad: "task_keys_in_order (all_high_levels unset_tag_annotations) = Inl TypeError"
    by (simp add: all_high_levels_def unset_tag_annotations_def dict_values_def make_task_key_def
        seg_get_def py_or_def truthy_def str_join_def)
  from label_tables_numbering [of c3_shared_annotations] label_tables_numbering [of unset_tag_annotations]
  show ?thesis
    by (simp add: sub keys bad spec_numbering_def)
qed

text \<open>
  C10. When the first sorted segment that contains a timestamp carries a label that is
  not a key of the mapping, the timestamp gets \<open>-1\<close>, whatever segments follow it in
  sorted order: the scan stops at the first match. The empty label is such a label for
  the subtask mapping, which is built from the non-empty labels only.
\<close>

theorem absent_label_stops_scan:
  assumes "\<forall>seg\<in>set segments. seg_label label_key seg = Inr (lbl seg)"
    and "i < length timestamps"
    and "spec_first_match (sort_key get_start segments) (timestamps ! i) = Some j"
    and "absent_label mapping (lbl (sort_key get_start segments ! j))"
  shows "(case assign_indices_by_segments timestamps segments mapping label_key of
            Inl e \<Rightarrow> False
          | Inr vs \<Rightarrow> length vs = length timestamps \<and> vs ! i = - 1)
       \<and> absent_label (map_of (snd (build_subtasks_dataframe annotations))) (PyStr '''')"
proof -
  have "assign_indices_by_segments timestamps segments mapping label_key =
       Inr (map (spec_assign mapping lbl (sort_key get_start segments)) timestamps)"
    using assms(1) by (intro assign_indices_general) simp
  moreover have "spec_assign mapping lbl (sort_key get_start segments) (timestamps ! i) = - 1"
    using assms(3,4) by (simp add: spec_assign_def mapping_get_absent)
  ultimately show ?thesis
    using assms(2) absent_empty_label [of annotations] by simp
qed

theorem absent_label_stops_scan_witness:
  "seg_label ''label'' (overlap_segments ! 0) = Inr (PyStr '''')
   \<and> seg_label ''label'' (overlap_segments ! 1) = Inr (PyStr ''a'')
   \<and> spec_first_match (sort_key get_start overlap_segments) ([1.5, 2.5] ! 0) = Some 0
   \<and> absent_label [''a'' \<mapsto> 0] (label_field (sort_key get_start overlap_segments ! 0))
   \<and> assign_indices_by_segments [1.5, 2.5] overlap_segments [''a'' \<mapsto> 0] ''label'' = Inr [- 1, 0]"
proof -
  have srt: "sort_key get_start overlap_segments = overlap_segments"
    by (simp add: overlap_segments_def labelled_def get_start_def)
  have h1: "\<forall>seg\<in>set overlap_segments. seg_label ''label'' seg = Inr (label_field seg)"
    by (simp add: seg_label_def label_field_def)
  have h2: "(0::nat) < length [1.5, 2.5 :: real]" by simp
  have h3: "spec_first_match (sort_key get_start overlap_segments) ([1.5, 2.5] ! 0) = Some 0"
    by (simp add: srt spec_first_match_def spec_contains_def overlap_segments_def labelled_def
        get_start_def get_end_def)
  have h4: "absent_label [''a'' \<mapsto> 0] (label_field (sort_key get_start overlap_segments ! 0))"
    unfolding srt
    by (simp add: absent_label_def label_field_def overlap_segments_def labelled_def seg_get_def)
  have ev: "assign_indices_by_segments [1.5, 2.5] overlap_segments [''a'' \<mapsto> 0] ''label'' = Inr [- 1, 0]"
    by (simp add: assign_indices_by_segments_def overlap_segments_def labelled_def get_start_def
        get_end_def seg_label_def seg_get_def mapping_get_def)
  have n: "seg_label ''label'' (overlap_segments ! 0) = Inr (PyStr [])"
    "seg_label ''label'' (overlap_segments ! 1) = Inr (PyStr ''a'')"
    by (simp_all add: seg_label_def overlap_segments_def labelled_def seg_get_def)
  show ?thesis
    using absent_label_stops_scan [OF h1 h2 h3 h4, of "[]"] h3 h4 ev n
    by simp
qed

section \<open>Claims about the merge of adjacent subtasks\<close>

lemma merge_loop_spec:
  "merge_loop segments (pre @ [p]) = pre @ spec_merge_max (p # segments)"
proof (induction segments arbitrary: pre p)
  case Nil
  then show ?case by simp
next
  case (Cons s segments)
  show ?case
  proof (cases "same_label_overlap p s")
    case True
    then show ?thesis
      using Cons.IH [of pre "p\<lparr>seg_end := Some (max (get_end p) (get_end s))\<rparr>"]
      by simp
  next
    case False
    then show ?thesis
      using Cons.IH [of "pre @ [p]" s] by simp
  qed
qed

lemma merge_loop_start: "merge_loop segments [] = spec_merge_max segments"
proof (cases segments)
  case Nil
  then show ?thesis by simp
next
  case (Cons s rest)
  then show ?thesis using merge_loop_spec [of rest "[]" s] by simp
qed

lemma merge_adjacent_spec:
  "merge_adjacent_subtasks segments = map round_times (spec_merge_max segments)"
  by (simp add: merge_adjacent_subtasks_def merge_loop_start)

lemma round_half_even_bounds:
  "\<bar>of_int (round_half_even x) - x\<bar> \<le> 1 / 2"
  unfolding round_half_even_def Let_def
  by (auto simp: abs_if) linarith+

lemma py_round3_close: "\<bar>py_round3 x - x\<bar> \<le> 1 / 2000"
proof -
  have "\<bar>of_int (round_half_even (x * 1000)) - x * 1000\<bar> \<le> 1 / 2"
    by (rule round_half_even_bounds)
  then show ?thesis unfolding py_round3_def by (simp add: abs_if field_simps split: if_splits)
qed

lemma merge_example:
  "merge_adjacent_subtasks [labelled 0 2 ''a'', labelled 2 4 ''a'', labelled 4 5 ''b''] =
   [labelled 0 4 ''a'', labelled 4 5 ''b'']"
  by (simp add: merge_adjacent_subtasks_def labelled_def same_label_overlap_def seg_get_def py_str_def
      get_start_def get_end_def round_times_def py_round3_def round_half_even_def)

text \<open>
  C7 (as amended). The merge step folds every segment into the segment before it in the
  output when their label strings are equal and the end of that output segment (as
  extended so far) is at least the start of the segment; the merged end is the larger
  of the two ends, which is the end of the later segment only when that one ends later.
  Every other segment is kept, and every start and end of the result is rounded to the
  nearest thousandth. Merging \<open>[(0,2,a),(2,4,a),(4,5,b)]\<close> gives \<open>[(0,4,a),(4,5,b)]\<close>.
\<close>

theorem merge_adjacent_max_end:
  "merge_adjacent_subtasks segments = map round_times (spec_merge_max segments)
   \<and> seg_start (round_times s) = Some (py_round3 (get_start s))
   \<and> seg_end (round_times s) = Some (py_round3 (get_end s))
   \<and> seg_fields (round_times s) = seg_fields s
   \<and> py_round3 x * 1000 = of_int (round_half_even (x * 1000))
   \<and> \<bar>py_round3 x - x\<bar> \<le> 1 / 2000
   \<and> merge_adjacent_subtasks [labelled 0 2 ''a'', labelled 2 4 ''a'', labelled 4 5 ''b''] =
       [labelled 0 4 ''a'', labelled 4 5 ''b'']"
  using merge_adjacent_spec [of segments] py_round3_close [of x] merge_example
  by (simp add: round_times_def py_round3_def)

theorem merge_adjacent_max_end_witness:
  "merge_adjacent_subtasks [labelled 0 5 ''a'', labelled 1 2 ''a'', labelled 3 4.0004 ''a'', labelled 4 6 ''b''] =
     [labelled 0 5 ''a'', labelled 4 6 ''b'']
   \<and> py_round3 4.0004 = 4"
proof -
  have "map round_times (spec_merge_max
          [labelled 0 5 ''a'', labelled 1 2 ''a'', labelled 3 4.0004 ''a'', labelled 4 6 ''b'']) =
        [labelled 0 5 ''a'', labelled 4 6 ''b'']"
    by (simp add: labelled_def same_label_overlap_def seg_get_def py_str_def get_start_def
        get_end_def round_times_def py_round3_def round_half_even_def)
  moreover have "py_round3 4.0004 = 4"
    by (simp add: py_round3_def round_half_even_def)
  ultimately show ?thesis
    using merge_adjacent_max_end
      [of "[labelled 0 5 ''a'', labelled 1 2 ''a'', labelled 3 4.0004 ''a'', labelled 4 6 ''b'']"]
    by simp
qed

theorem merge_later_end_counterexample:
  "merge_adjacent_subtasks [labelled 0 5 ''a'', labelled 1 2 ''a''] = [labelled 0 5 ''a'']
   \<and> map round_times (spec_merge_later [labelled 0 5 ''a'', labelled 1 2 ''a'']) = [labelled 0 2 ''a'']
   \<and> merge_adjacent_subtasks [labelled 0 5 ''a'', labelled 1 2 ''a''] \<noteq>
       map round_times (spec_merge_later [labelled 0 5 ''a'', labelled 1 2 ''a''])"
  by (simp add: merge_adjacent_subtasks_def labelled_def same_label_overlap_def seg_get_def py_str_def
      get_start_def get_end_def round_times_def py_round3_def round_half_even_def)

section \<open>Claims about the media cache\<close>

lemma extract_frame_hit:
  "cached w (frame_path lib self vp ts) \<Longrightarrow>
   extract_frame lib tool self vp ts w = (Inr (frame_path lib self vp ts), w)"
  by (simp add: extract_frame_def)

lemma extract_clip_hit:
  "cached w (clip_path lib self vp start (clip_end start end0) (clip_fps fps0)) \<Longrightarrow>
   extract_clip lib tool self vp start end0 fps0 w =
   (Inr (clip_path lib self vp start (clip_end start end0) (clip_fps fps0)), w)"
  by (simp add: extract_clip_def)

lemma extract_frame_success:
  assumes "extract_frame lib tool self vp ts w = (Inr p, w1)"
  shows "p = frame_path lib self vp ts \<and> cached w1 p \<and>
         (events w1 = events w \<or> events w1 = events w @ [Mkdir (cache_dir self), Run (frame_cmd lib self vp ts p)])"
  using assms
  by (auto simp: extract_frame_def Let_def subprocess_run_def mkdir_def
      split: if_splits prod.splits option.splits)

lemma extract_clip_success:
  assumes "extract_clip lib tool self vp start end0 fps0 w = (Inr p, w1)"
  shows "p = clip_path lib self vp start (clip_end start end0) (clip_fps fps0) \<and> cached w1 p \<and>
         (events w1 = events w \<or>
          events w1 = events w @ [Mkdir (cache_dir self),
             Run (clip_cmd lib self vp start (clip_end start end0) (clip_fps fps0) p)])"
  using assms
  by (auto simp: extract_clip_def Let_def subprocess_run_def mkdir_def
      split: if_splits prod.splits option.splits)

lemma count_runs_append: "count_runs (xs @ ys) = count_runs xs + count_runs ys"
  by (simp add: count_runs_def)

lemma frame_twice:
  assumes "extract_frame lib tool self vp ts w = (Inr p, w1)"
  shows "extract_frame lib tool self vp ts w1 = (Inr p, w1) \<and> cached w1 p
       \<and> count_runs (events w1) \<le> count_runs (events w) + 1"
proof -
  from extract_frame_success [OF assms] have p: "p = frame_path lib self vp ts" and c: "cached w1 p"
    and e: "events w1 = events w \<or> events w1 = events w @ [Mkdir (cache_dir self), Run (frame_cmd lib self vp ts p)]"
    by auto
  from e have "count_runs (events w1) \<le> count_runs (events w) + 1"
    by (auto simp: count_runs_append) (simp add: count_runs_def)
  with p c extract_frame_hit [of w1 lib self vp ts tool] show ?thesis by simp
qed

lemma clip_twice:
  assumes "extract_clip lib tool self vp start end0 fps0 w = (Inr p, w1)"
  shows "extract_clip lib tool self vp start end0 fps0 w1 = (Inr p, w1) \<and> cached w1 p
       \<and> count_runs (events w1) \<le> count_runs (events w) + 1"
proof -
  from extract_clip_success [OF assms]
  have p: "p = clip_path lib self vp start (clip_end start end0) (clip_fps fps0)" and c: "cached w1 p"
    and e: "events w1 = events w \<or> events w1 = events w @ [Mkdir (cache_dir self),
             Run (clip_cmd lib self vp start (clip_end start end0) (clip_fps fps0) p)]"
    by auto
  from e have "count_runs (events w1) \<le> count_runs (events w) + 1"
    by (auto simp: count_runs_append) (simp add: count_runs_def)
  with p c extract_clip_hit [of w1 lib self vp start end0 fps0 tool] show ?thesis by simp
qed

lemma clip_end_idem: "clip_end start (clip_end start end0) = clip_end start end0"
  by (simp add: clip_end_def)

lemma clip_fps_idem: "clip_fps (clip_fps fps0) = clip_fps fps0"
  by (simp add: clip_fps_def)

lemma extract_clip_clamped:
  "extract_clip lib tool self vp start end0 fps0 w =
   extract_clip lib tool self vp start (clip_end start end0) (clip_fps fps0) w"
  by (simp add: extract_clip_def clip_end_idem clip_fps_idem)

lemma frame_events:
  "events (snd (extract_frame lib tool self vp ts w)) =
     events w @ (if cached w (frame_path lib self vp ts) then []
                 else [Mkdir (cache_dir self),
                       Run (frame_cmd lib self vp ts (frame_path lib self vp ts))])"
  by (auto simp: extract_frame_def Let_def subprocess_run_def mkdir_def split: prod.splits option.splits)

lemma frame_files:
  "files (snd (extract_frame lib tool self vp ts w)) =
     (if cached w (frame_path lib self vp ts) then files w
      else snd (tool (frame_cmd lib self vp ts (frame_path lib self vp ts)) (files w)))"
  by (auto simp: extract_frame_def Let_def subprocess_run_def mkdir_def split: prod.splits option.splits)

lemma clip_events:
  "events (snd (extract_clip lib tool self vp start end0 fps0 w)) =
     events w @ (if cached w (clip_path lib self vp start (clip_end start end0) (clip_fps fps0)) then []
                 else [Mkdir (cache_dir self),
                       Run (clip_cmd lib self vp start (clip_end start end0) (clip_fps fps0)
                             (clip_path lib self vp start (clip_end start end0) (clip_fps fps0)))])"
  by (auto simp: extract_clip_def Let_def subprocess_run_def mkdir_def split: prod.splits option.splits)

lemma clip_files:
  "files (snd (extract_clip lib tool self vp start end0 fps0 w)) =
     (if cached w (clip_path lib self vp start (clip_end start end0) (clip_fps fps0)) then files w
      else snd (tool (clip_cmd lib self vp start (clip_end start end0) (clip_fps fps0)
                             (clip_path lib self vp start (clip_end start end0) (clip_fps fps0))) (files w)))"
  by (auto simp: extract_clip_def Let_def subprocess_run_def mkdir_def split: prod.splits option.splits)

lemma last_frame_cmd: "last (frame_cmd lib self vp ts out) = out"
  by (simp add: frame_cmd_def Let_def)

lemma last_clip_cmd: "last (clip_cmd lib self vp start end_sec rate out) = out"
  by (simp add: clip_cmd_def Let_def)

lemma demo_frame:
  "extract_frame demo_lib demo_tool demo_sampler ''v.mp4'' 1 empty_world =
   (Inr ''.cache/ai_frames/frame_hv.mp4|t|768.jpg'',
    \<lparr>files = [''.cache/ai_frames/frame_hv.mp4|t|768.jpg'' \<mapsto> ''ok''],
     events = [Mkdir ''.cache/ai_frames'',
               Run (frame_cmd demo_lib demo_sampler ''v.mp4'' 1 ''.cache/ai_frames/frame_hv.mp4|t|768.jpg'')]\<rparr>)"
  by (simp add: extract_frame_def frame_path_def demo_lib_def demo_tool_def demo_sampler_def
      empty_world_def path_join_def cached_def mkdir_def subprocess_run_def last_frame_cmd Let_def)

lemma demo_clip:
  "extract_clip demo_lib demo_tool demo_sampler ''v.mp4'' 0 2 4 empty_world =
   (Inr ''.cache/ai_frames/clip_hv.mp4|t|t|t|768.mp4'',
    \<lparr>files = [''.cache/ai_frames/clip_hv.mp4|t|t|t|768.mp4'' \<mapsto> ''ok''],
     events = [Mkdir ''.cache/ai_frames'',
               Run (clip_cmd demo_lib demo_sampler ''v.mp4'' 0 2 4 ''.cache/ai_frames/clip_hv.mp4|t|t|t|768.mp4'')]\<rparr>)"
  by (simp add: extract_clip_def clip_path_def clip_end_def clip_fps_def demo_lib_def demo_tool_def
      demo_sampler_def empty_world_def path_join_def cached_def mkdir_def subprocess_run_def
      last_clip_cmd Let_def)

text \<open>
  C6. When a call of the frame operation (or of the clip operation) returns a cache
  entry, a second call with the same arguments returns the same entry and leaves the
  files and the effects as they are: the content of the entry is the same, the second
  call does not start the transcoder, and the two calls together start it at most once.
\<close>

theorem cache_operations_idempotent:
  "(extract_frame lib tool self vp ts w = (Inr p, w1) \<longrightarrow>
      extract_frame lib tool self vp ts w1 = (Inr p, w1) \<and> cached w1 p
      \<and> count_runs (events w1) \<le> count_runs (events w) + 1)
   \<and> (extract_clip lib tool self vp start end0 fps0 w = (Inr q, w2) \<longrightarrow>
      extract_clip lib tool self vp start end0 fps0 w2 = (Inr q, w2) \<and> cached w2 q
      \<and> count_runs (events w2) \<le> count_runs (events w) + 1)"
  using frame_twice [of lib tool self vp ts w p w1]
    clip_twice [of lib tool self vp start end0 fps0 w q w2]
  by blast

theorem cache_operations_idempotent_witness:
  "extract_frame demo_lib demo_tool demo_sampler ''v.mp4'' 1 empty_world =
     (Inr ''.cache/ai_frames/frame_hv.mp4|t|768.jpg'',
      \<lparr>files = [''.cache/ai_frames/frame_hv.mp4|t|768.jpg'' \<mapsto> ''ok''],
       events = [Mkdir ''.cache/ai_frames'',
                 Run (frame_cmd demo_lib demo_sampler ''v.mp4'' 1 ''.cache/ai_frames/frame_hv.mp4|t|768.jpg'')]\<rparr>)
   \<and> extract_frame demo_lib demo_tool demo_sampler ''v.mp4'' 1
       \<lparr>files = [''.cache/ai_frames/frame_hv.mp4|t|768.jpg'' \<mapsto> ''ok''],
        events = [Mkdir ''.cache/ai_frames'',
                  Run (frame_cmd demo_lib demo_sampler ''v.mp4'' 1 ''.cache/ai_frames/frame_hv.mp4|t|768.jpg'')]\<rparr> =
     (Inr ''.cache/ai_frames/frame_hv.mp4|t|768.jpg'',
      \<lparr>files = [''.cache/ai_frames/frame_hv.mp4|t|768.jpg'' \<mapsto> ''ok''],
       events = [Mkdir ''.cache/ai_frames'',
                 Run (frame_cmd demo_lib demo_sampler ''v.mp4'' 1 ''.cache/ai_frames/frame_hv.mp4|t|768.jpg'')]\<rparr>)
   \<and> extract_clip demo_lib demo_tool demo_sampler ''v.mp4'' 0 2 4
       \<lparr>files = [''.cache/ai_frames/clip_hv.mp4|t|t|t|768.mp4'' \<mapsto> ''ok''],
        events = [Mkdir ''.cache/ai_frames'',
                  Run (clip_cmd demo_lib demo_sampler ''v.mp4'' 0 2 4 ''.cache/ai_frames/clip_hv.mp4|t|t|t|768.mp4'')]\<rparr> =
     (Inr ''.cache/ai_frames/clip_hv.mp4|t|t|t|768.mp4'',
      \<lparr>files = [''.cache/ai_frames/clip_hv.mp4|t|t|t|768.mp4'' \<mapsto> ''ok''],
       events = [Mkdir ''.cache/ai_frames'',
                 Run (clip_cmd demo_lib demo_sampler ''v.mp4'' 0 2 4 ''.cache/ai_frames/clip_hv.mp4|t|t|t|768.mp4'')]\<rparr>)"
  using cache_operations_idempotent
    [of demo_lib demo_tool demo_sampler "''v.mp4''" 1 empty_world
        "''.cache/ai_frames/frame_hv.mp4|t|768.jpg''"
        "\<lparr>files = [''.cache/ai_frames/frame_hv.mp4|t|768.jpg'' \<mapsto> ''ok''],
          events = [Mkdir ''.cache/ai_frames'',
                    Run (frame_cmd demo_lib demo_sampler ''v.mp4'' 1 ''.cache/ai_frames/frame_hv.mp4|t|768.jpg'')]\<rparr>"
        0 2 4
        "''.cache/ai_frames/clip_hv.mp4|t|t|t|768.mp4''"
        "\<lparr>files = [''.cache/ai_frames/clip_hv.mp4|t|t|t|768.mp4'' \<mapsto> ''ok''],
          events = [Mkdir ''.cache/ai_frames'',
                    Run (clip_cmd demo_lib demo_sampler ''v.mp4'' 0 2 4 ''.cache/ai_frames/clip_hv.mp4|t|t|t|768.mp4'')]\<rparr>"]
    demo_frame demo_clip
  by simp

text \<open>
  C8 (as amended). The clip operation replaces the end by \<open>start + 0.05\<close> when the
  given end is not after the start, and leaves an end after the start as it is (also one
  less than 0.05 s after it); it replaces every sampling rate of at most \<open>10\<^sup>-\<^sup>6\<close>, so
  every non-positive one, by 1.0, and leaves a larger one as it is. The cache key and the command line are computed from the
  values so replaced: the call is the same as the call on the replaced values.
\<close>

theorem clip_arguments_clamped:
  "start < clip_end start end0
   \<and> (end0 \<le> start \<longrightarrow> clip_end start end0 = start + 0.05)
   \<and> (start < end0 \<longrightarrow> clip_end start end0 = end0)
   \<and> 0 < clip_fps fps0
   \<and> (fps0 \<le> 0 \<longrightarrow> clip_fps fps0 = 1)
   \<and> (fps0 \<le> 1 / 1000000 \<longrightarrow> clip_fps fps0 = 1)
   \<and> (1 / 1000000 < fps0 \<longrightarrow> clip_fps fps0 = fps0)
   \<and> extract_clip lib tool self vp start end0 fps0 w =
       extract_clip lib tool self vp start (clip_end start end0) (clip_fps fps0) w
   \<and> events (snd (extract_clip lib tool self vp start end0 fps0 w)) =
       events w @
         (if cached w (clip_path lib self vp start (clip_end start end0) (clip_fps fps0)) then []
          else [Mkdir (cache_dir self),
                Run (clip_cmd lib self vp start (clip_end start end0) (clip_fps fps0)
                       (clip_path lib self vp start (clip_end start end0) (clip_fps fps0)))])"
  using extract_clip_clamped [of lib tool self vp start end0 fps0 w]
    clip_events [of lib tool self vp start end0 fps0 w]
  by (simp add: clip_end_def clip_fps_def)

theorem clip_arguments_clamped_witness:
  "clip_end 3 1 = 3.05 \<and> clip_end 3 3 = 3.05 \<and> clip_end 3 4 = 4
   \<and> clip_fps 0 = 1 \<and> clip_fps (- 2) = 1 \<and> clip_fps (1 / 2000000) = 1 \<and> clip_fps 0.5 = 0.5
   \<and> extract_clip demo_lib demo_tool demo_sampler ''v.mp4'' 3 1 0 empty_world =
       extract_clip demo_lib demo_tool demo_sampler ''v.mp4'' 3 3.05 1 empty_world"
proof -
  note t = clip_arguments_clamped [of 3 1 0 demo_lib demo_tool demo_sampler "''v.mp4''" empty_world]
  have e1: "clip_end 3 1 = 3.05" using t by simp
  have f1: "clip_fps 0 = 1" using t by simp
  have eq: "extract_clip demo_lib demo_tool demo_sampler ''v.mp4'' 3 1 0 empty_world =
       extract_clip demo_lib demo_tool demo_sampler ''v.mp4'' 3 (clip_end 3 1) (clip_fps 0) empty_world"
    using t by blast
  have small: "clip_fps (1 / 2000000) = 1"
    using clip_arguments_clamped [of 3 1 "1 / 2000000"] by simp
  have rest: "clip_end 3 3 = 3.05 \<and> clip_end 3 4 = 4 \<and> clip_fps (- 2) = 1 \<and> clip_fps 0.5 = 0.5"
    by (simp add: clip_end_def clip_fps_def)
  from eq e1 f1 small rest show ?thesis by simp
qed

theorem clip_end_counterexample:
  "clip_end 0 0.01 = 0.01 \<and> \<not> (0 + 0.05 \<le> clip_end 0 0.01)"
  by (simp add: clip_end_def)

text \<open>
  C9 (as amended). A cache entry is written by the transcoder itself at the final cache
  path: on a miss the only effects of the frame and clip operations are the creation of
  the cache directory and one run of the transcoder whose output argument is the final
  path, and the files change as that run changes them; on a hit there is no effect. No
  temporary file is written and nothing is renamed.
\<close>

theorem cache_entry_written_in_place:
  "events (snd (extract_frame lib tool self vp ts w)) =
     events w @ (if cached w (frame_path lib self vp ts) then []
                 else [Mkdir (cache_dir self),
                       Run (frame_cmd lib self vp ts (frame_path lib self vp ts))])
   \<and> files (snd (extract_frame lib tool self vp ts w)) =
     (if cached w (frame_path lib self vp ts) then files w
      else snd (tool (frame_cmd lib self vp ts (frame_path lib self vp ts)) (files w)))
   \<and> writes_at (frame_path lib self vp ts) (Run (frame_cmd lib self vp ts (frame_path lib self vp ts)))
   \<and> events (snd (extract_clip lib tool self vp start end0 fps0 w)) =
     events w @ (if cached w (clip_path lib self vp start (clip_end start end0) (clip_fps fps0)) then []
                 else [Mkdir (cache_dir self),
                       Run (clip_cmd lib self vp start (clip_end start end0) (clip_fps fps0)
                             (clip_path lib self vp start (clip_end start end0) (clip_fps fps0)))])
   \<and> files (snd (extract_clip lib tool self vp start end0 fps0 w)) =
     (if cached w (clip_path lib self vp start (clip_end start end0) (clip_fps fps0)) then files w
      else snd (tool (clip_cmd lib self vp start (clip_end start end0) (clip_fps fps0)
                             (clip_path lib self vp start (clip_end start end0) (clip_fps fps0))) (files w)))
   \<and> writes_at (clip_path lib self vp start (clip_end start end0) (clip_fps fps0))
        (Run (clip_cmd lib self vp start (clip_end start end0) (clip_fps fps0)
                (clip_path lib self vp start (clip_end start end0) (clip_fps fps0))))"
  using frame_events [of lib tool self vp ts w] frame_files [of lib tool self vp ts w]
    clip_events [of lib tool self vp start end0 fps0 w] clip_files [of lib tool self vp start end0 fps0 w]
  by (simp add: writes_at_def last_frame_cmd last_clip_cmd) (simp add: frame_cmd_def clip_cmd_def Let_def)

theorem cache_entry_written_in_place_witness:
  "events (snd (extract_frame demo_lib failing_tool demo_sampler ''v.mp4'' 1 empty_world)) =
     [Mkdir ''.cache/ai_frames'',
      Run (frame_cmd demo_lib demo_sampler ''v.mp4'' 1 ''.cache/ai_frames/frame_hv.mp4|t|768.jpg'')]
   \<and> files (snd (extract_frame demo_lib demo_tool demo_sampler ''v.mp4'' 1 empty_world)) =
     [''.cache/ai_frames/frame_hv.mp4|t|768.jpg'' \<mapsto> ''ok'']"
  using cache_entry_written_in_place [of demo_lib failing_tool demo_sampler "''v.mp4''" 1 empty_world]
    cache_entry_written_in_place [of demo_lib demo_tool demo_sampler "''v.mp4''" 1 empty_world]
  by (simp add: frame_path_def demo_lib_def demo_sampler_def empty_world_def path_join_def cached_def
      demo_tool_def last_frame_cmd Let_def)

theorem temp_then_rename_counterexample:
  "events (snd (extract_frame demo_lib demo_tool demo_sampler ''v.mp4'' 1 empty_world)) =
     [Mkdir ''.cache/ai_frames'',
      Run (frame_cmd demo_lib demo_sampler ''v.mp4'' 1 (frame_path demo_lib demo_sampler ''v.mp4'' 1))]
   \<and> writes_at (frame_path demo_lib demo_sampler ''v.mp4'' 1)
        (Run (frame_cmd demo_lib demo_sampler ''v.mp4'' 1 (frame_path demo_lib demo_sampler ''v.mp4'' 1)))
   \<and> \<not> spec_temp_then_rename
         (events (snd (extract_frame demo_lib demo_tool demo_sampler ''v.mp4'' 1 empty_world)))
         (frame_path demo_lib demo_sampler ''v.mp4'' 1)"
proof -
  have c: "\<not> cached empty_world (frame_path demo_lib demo_sampler ''v.mp4'' 1)"
    by (simp add: cached_def empty_world_def)
  have e: "events (snd (extract_frame demo_lib demo_tool demo_sampler ''v.mp4'' 1 empty_world)) =
     [Mkdir (cache_dir demo_sampler),
      Run (frame_cmd demo_lib demo_sampler ''v.mp4'' 1 (frame_path demo_lib demo_sampler ''v.mp4'' 1))]"
    using c by (simp add: frame_events empty_world_def)
  have d: "cache_dir demo_sampler = ''.cache/ai_frames''"
    by (simp add: demo_sampler_def)
  have w: "writes_at (frame_path demo_lib demo_sampler ''v.mp4'' 1)
        (Run (frame_cmd demo_lib demo_sampler ''v.mp4'' 1 (frame_path demo_lib demo_sampler ''v.mp4'' 1)))"
    by (simp add: writes_at_def last_frame_cmd) (simp add: frame_cmd_def Let_def)
  show ?thesis
    unfolding e using w by (simp add: d spec_temp_then_rename_def renames_to_def)
qed

section \<open>Claims about episode timing\<close>

lemma map_of_append_new:
  "k \<notin> fst ` set d \<Longrightarrow> map_of (d @ [(k, v)]) = (map_of d)(k \<mapsto> v)"
  by (induction d) (auto simp: fun_eq_iff)

lemma map_of_replace_same:
  "k \<in> fst ` set d \<Longrightarrow>
   map_of (map (\<lambda>(k', v'). if k' = k then (k', v) else (k', v')) d) k = Some v"
  by (induction d) auto

lemma map_of_replace_other:
  "x \<noteq> k \<Longrightarrow>
   map_of (map (\<lambda>(k', v'). if k' = k then (k', v) else (k', v')) d) x = map_of d x"
  by (induction d) auto

lemma map_of_dict_set: "map_of (dict_set d k v) = (map_of d)(k \<mapsto> v)"
proof (cases "k \<in> fst ` set d")
  case False
  then show ?thesis by (simp add: dict_set_def map_of_append_new del: map_of_append)
next
  case True
  then show ?thesis by (simp add: dict_set_def fun_eq_iff map_of_replace_same map_of_replace_other)
qed

lemma offsets_step_entry:
  "offsets_step has_cols vkey fps_val row result =
   dict_set result (episode_index row) (offsets_entry has_cols vkey fps_val row)"
  by (simp add: offsets_step_def offsets_entry_def Let_def split: option.splits bool.splits)

lemma offsets_fold_lookup:
  assumes "distinct (map episode_index rws)" and "row \<in> set rws"
  shows "map_of (fold (offsets_step has_cols vkey fps_val) rws acc) (episode_index row) =
         Some (offsets_entry has_cols vkey fps_val row)"
  using assms
proof (induction rws arbitrary: acc)
  case Nil
  then show ?case by simp
next
  case (Cons r rws)
  show ?case
  proof (cases "row \<in> set rws")
    case True
    with Cons show ?thesis by simp
  next
    case False
    with Cons.prems have r: "r = row" by simp
    have keep: "map_of (fold (offsets_step has_cols vkey fps_val) xs acc') k = map_of acc' k"
      if "k \<notin> episode_index ` set xs" for xs acc' k
      using that by (induction xs arbitrary: acc') (simp_all add: offsets_step_entry map_of_dict_set)
    have "episode_index row \<notin> episode_index ` set rws"
      using Cons.prems(1) r by simp
    from keep [OF this, of "offsets_step has_cols vkey fps_val row acc"]
    have "map_of (fold (offsets_step has_cols vkey fps_val) (r # rws) acc) (episode_index row) =
          map_of (offsets_step has_cols vkey fps_val row acc) (episode_index row)"
      by (simp add: r)
    also have "\<dots> = Some (offsets_entry has_cols vkey fps_val row)"
      by (simp add: offsets_step_entry map_of_dict_set)
    finally show ?thesis .
  qed
qed

lemma filter_distinct_key:
  assumes "distinct (map f xs)" and "x \<in> set xs"
  shows "filter (\<lambda>r. f r = f x) xs = [x]"
  using assms
proof (induction xs)
  case Nil
  then show ?case by simp
next
  case (Cons y ys)
  show ?case
  proof (cases "x = y")
    case True
    have "f y \<notin> f ` set ys" using Cons.prems(1) by simp
    then have "\<And>r. r \<in> set ys \<Longrightarrow> f r \<noteq> f y" by (metis imageI)
    then have "filter (\<lambda>r. f r = f y) ys = []"
      by (simp add: filter_empty_conv)
    with True show ?thesis by simp
  next
    case False
    with Cons.prems have "x \<in> set ys" by simp
    moreover from this Cons.prems(1) have "f y \<noteq> f x" by force
    ultimately show ?thesis using Cons by simp
  qed
qed

lemma get_episode_timing_row:
  assumes df: "episodes_df manager = Some df"
    and meta: "info manager = Some meta"
    and key: "opt_or vkey_arg (video_key manager) = Some k" "k \<noteq> []"
    and dist: "distinct (map episode_index (table_rows df))"
    and row: "row \<in> set (table_rows df)"
  shows "get_episode_timing manager (episode_index row) vkey_arg =
     Inr \<lparr> fps = (case info_fps meta of None \<Rightarrow> 30 | Some f \<Rightarrow> f),
           length_frames = ep_length row,
           duration = episode_duration (ep_length row) (case info_fps meta of None \<Rightarrow> 30 | Some f \<Rightarrow> f),
           video_start_time = fst (offsets_entry (k \<in> set (from_ts_columns df) \<and> k \<in> set (to_ts_columns df)) k
                                     (case info_fps meta of None \<Rightarrow> 30 | Some f \<Rightarrow> f) row),
           video_end_time = snd (offsets_entry (k \<in> set (from_ts_columns df) \<and> k \<in> set (to_ts_columns df)) k
                                     (case info_fps meta of None \<Rightarrow> 30 | Some f \<Rightarrow> f) row) \<rparr>"
proof -
  have f: "filter (\<lambda>r. episode_index r = episode_index row) (table_rows df) = [row]"
    using filter_distinct_key [OF dist row] .
  have m: "map_of (calculate_video_offsets manager k fps_val) (episode_index row) =
      Some (offsets_entry (k \<in> set (from_ts_columns df) \<and> k \<in> set (to_ts_columns df)) k fps_val row)" for fps_val
    using offsets_fold_lookup [OF dist row] by (simp add: calculate_video_offsets_def df Let_def)
  show ?thesis
    by (simp add: get_episode_timing_def df meta key f m Let_def split: prod.splits)
qed

lemma offsets_entry_spec:
  "offsets_entry (k \<in> set (from_ts_columns df) \<and> k \<in> set (to_ts_columns df)) k fps_val row =
   (case spec_explicit_offsets df k row of
      None \<Rightarrow> (0, episode_duration (ep_length row) fps_val)
    | Some (f, t) \<Rightarrow> (f, t))"
  by (simp add: offsets_entry_def spec_explicit_offsets_def split: option.splits bool.splits)

text \<open>
  C5. For an episode of the table, with a video stream selected, timing resolution
  returns the start and end times of the episode's own \<open>from\<close>/\<open>to\<close> cells when both
  columns exist and both cells are non-null (so the difference of the two times is
  \<open>to - from\<close>), and otherwise start 0 and end \<open>duration = length / fps\<close>; which
  of the two applies is decided by the row of that episode alone. The hypotheses: the
  dataset is loaded, a non-empty video key is selected, and the table has one row for
  each episode index.
\<close>

theorem episode_timing_resolution:
  assumes "episodes_df manager = Some df"
    and "info manager = Some meta"
    and "opt_or vkey_arg (video_key manager) = Some k"
    and "k \<noteq> []"
    and "distinct (map episode_index (table_rows df))"
    and "row \<in> set (table_rows df)"
  shows "get_episode_timing manager (episode_index row) vkey_arg =
     Inr \<lparr> fps = info_fps_or_default meta,
           length_frames = ep_length row,
           duration = episode_duration (ep_length row) (info_fps_or_default meta),
           video_start_time =
             (case spec_explicit_offsets df k row of None \<Rightarrow> 0 | Some (f, t) \<Rightarrow> f),
           video_end_time =
             (case spec_explicit_offsets df k row of
                None \<Rightarrow> episode_duration (ep_length row) (info_fps_or_default meta)
              | Some (f, t) \<Rightarrow> t) \<rparr>
     \<and> (info_fps_or_default meta \<noteq> 0 \<longrightarrow>
          episode_duration (ep_length row) (info_fps_or_default meta) =
            of_int (ep_length row) / info_fps_or_default meta)
     \<and> (spec_explicit_offsets df k row = Some (f, t) \<longrightarrow>
          map_sum id (\<lambda>tm. video_end_time tm - video_start_time tm)
            (get_episode_timing manager (episode_index row) vkey_arg) = Inr (t - f))"
proof -
  have main: "get_episode_timing manager (episode_index row) vkey_arg =
     Inr \<lparr> fps = info_fps_or_default meta,
           length_frames = ep_length row,
           duration = episode_duration (ep_length row) (info_fps_or_default meta),
           video_start_time =
             (case spec_explicit_offsets df k row of None \<Rightarrow> 0 | Some (f, t) \<Rightarrow> f),
           video_end_time =
             (case spec_explicit_offsets df k row of
                None \<Rightarrow> episode_duration (ep_length row) (info_fps_or_default meta)
              | Some (f, t) \<Rightarrow> t) \<rparr>"
    using get_episode_timing_row [OF assms]
    by (simp add: offsets_entry_spec info_fps_or_default_def split: option.splits)
  then show ?thesis
    by (simp add: episode_duration_def)
qed

theorem episode_timing_resolution_witness:
  "get_episode_timing mixed_manager 0 None =
     Inr \<lparr> fps = 30, length_frames = 60, duration = 2, video_start_time = 12.5, video_end_time = 14.5 \<rparr>
   \<and> get_episode_timing mixed_manager 1 None =
     Inr \<lparr> fps = 30, length_frames = 90, duration = 3, video_start_time = 0, video_end_time = 3 \<rparr>"
proof -
  let ?df = "\<lparr> from_ts_columns = [''cam''], to_ts_columns = [''cam''],
               table_rows = [timing_row 0 60 (Some 12.5) (Some 14.5), timing_row 1 90 None None] \<rparr>"
  have df: "episodes_df mixed_manager = Some ?df" by (simp add: mixed_manager_def)
  have meta: "info mixed_manager = Some \<lparr> info_fps = Some 30 \<rparr>" by (simp add: mixed_manager_def)
  have key: "opt_or None (video_key mixed_manager) = Some ''cam''"
    by (simp add: mixed_manager_def opt_or_def)
  have ne: "''cam'' \<noteq> []" by simp
  have dist: "distinct (map episode_index (table_rows ?df))" by (simp add: timing_row_def)
  have r0: "timing_row 0 60 (Some 12.5) (Some 14.5) \<in> set (table_rows ?df)" by simp
  have r1: "timing_row 1 90 None None \<in> set (table_rows ?df)" by simp
  from episode_timing_resolution [OF df meta key ne dist r0]
    episode_timing_resolution [OF df meta key ne dist r1]
  show ?thesis
    by (simp add: timing_row_def spec_explicit_offsets_def info_fps_or_default_def episode_duration_def)
qed

section \<open>Claims about resuming a generation\<close>

lemma stored_high_levels_get:
  "get_episode_annotations manager ep = (ann, m) \<Longrightarrow>
   high_levels ann = stored_high_levels manager ep \<and> stored_high_levels m ep = stored_high_levels manager ep
   \<and> map_of (manager_annotations m) ep = Some ann"
  by (auto simp: get_episode_annotations_def stored_high_levels_def map_of_dict_set Let_def
      split: option.splits)

lemma stored_high_levels_save:
  "stored_high_levels (save_annotations m) ep = stored_high_levels m ep"
  by (simp add: save_annotations_def stored_high_levels_def split: option.splits)

lemma stored_high_levels_set:
  "stored_high_levels (m\<lparr>manager_annotations := dict_set (manager_annotations m) ep ann\<rparr>) ep = high_levels ann"
  by (simp add: stored_high_levels_def map_of_dict_set)

lemma vqa_resume_appends:
  assumes "py_bool (vqa_resume_from_last req)"
  shows "stored_high_levels (snd (generate_fake_vqa prepared gen manager req)) (vqa_episode_index req) =
         stored_high_levels manager (vqa_episode_index req) @
           (case fst (generate_fake_vqa prepared gen manager req) of Inl e \<Rightarrow> [] | Inr segments \<Rightarrow> segments)"
proof (cases prepared)
  case (Some e)
  then show ?thesis by (simp add: generate_fake_vqa_def)
next
  case None
  let ?ep = "vqa_episode_index req"
  obtain start_time_s manager1 where r:
    "(if vqa_start_time_s req = None \<and> py_bool (vqa_resume_from_last req) then
        (case get_episode_annotations manager ?ep of
           (ann0, m) \<Rightarrow> (if high_levels ann0 \<noteq> [] then seg_end (last (high_levels ann0)) else None, m))
      else (vqa_start_time_s req, manager)) = (start_time_s, manager1)"
    by (cases "(if vqa_start_time_s req = None \<and> py_bool (vqa_resume_from_last req) then
        (case get_episode_annotations manager ?ep of
           (ann0, m) \<Rightarrow> (if high_levels ann0 \<noteq> [] then seg_end (last (high_levels ann0)) else None, m))
      else (vqa_start_time_s req, manager))") auto
  have m1: "stored_high_levels manager1 ?ep = stored_high_levels manager ?ep"
    using r stored_high_levels_get [of manager ?ep]
    by (auto split: if_splits prod.splits)
  show ?thesis
  proof (cases "gen start_time_s")
    case (Inl e)
    then show ?thesis using None r m1 by (simp add: generate_fake_vqa_def Let_def)
  next
    case (Inr segments)
    obtain ann manager2 where g: "get_episode_annotations manager1 ?ep = (ann, manager2)"
      by (cases "get_episode_annotations manager1 ?ep") auto
    from stored_high_levels_get [OF g] m1
    have "high_levels ann = stored_high_levels manager ?ep" by simp
    then show ?thesis
      using None r Inr g assms
      by (simp add: generate_fake_vqa_def Let_def stored_high_levels_save stored_high_levels_set)
  qed
qed

lemma subtasks_resume_replace:
  "generate_subtasks None (\<lambda>start. Inr [labelled 2 4 ''b'']) resume_manager resume_subtasks_request =
     (Inr [labelled 2 4 ''b''],
      resume_manager\<lparr>manager_annotations :=
         [(0, \<lparr>subtasks = [labelled 2 4 ''b''], high_levels = [high_level 0 2 ''q'' ''r''], qa_labels = []\<rparr>)],
        annotations_file :=
         Some [(0, \<lparr>subtasks = [labelled 2 4 ''b''], high_levels = [high_level 0 2 ''q'' ''r''], qa_labels = []\<rparr>)]\<rparr>)"
  by (simp add: generate_subtasks_def resume_manager_def resume_subtasks_request_def py_bool_def
      get_episode_annotations_def merge_adjacent_subtasks_def round_times_def labelled_def
      get_start_def get_end_def py_round3_def round_half_even_def normalize_response_def
      dict_set_def save_annotations_def Let_def)

lemma vqa_resume_keeps_prefix:
  "py_bool (vqa_resume_from_last req) \<Longrightarrow>
   prefix (stored_high_levels manager (vqa_episode_index req))
     (stored_high_levels (snd (generate_fake_vqa prepared gen manager req)) (vqa_episode_index req))"
  by (simp add: vqa_resume_appends)

lemma vqa_resume_example:
  "stored_high_levels
     (snd (generate_fake_vqa None (\<lambda>start. Inr [high_level 2 4 ''q2'' ''r2'']) resume_manager resume_vqa_request)) 0 =
   [high_level 0 2 ''q'' ''r'', high_level 2 4 ''q2'' ''r2'']"
  using vqa_resume_appends [of resume_vqa_request None "\<lambda>start. Inr [high_level 2 4 ''q2'' ''r2'']" resume_manager]
  by (simp add: resume_vqa_request_def py_bool_def stored_high_levels_def resume_manager_def
      generate_fake_vqa_def get_episode_annotations_def Let_def)

text \<open>
  C2. A generation call with \<open>resume_from_last\<close> set and mode \<open>replace\<close> should leave
  the prior list of the episode as a prefix of the stored list. The question/answer call
  does so (\<open>vqa_resume_keeps_prefix\<close>). The subtask call does not: episode 0 holds the
  subtask \<open>(0, 2, a)\<close>, the call resumes from its end, the generator returns
  \<open>(2, 4, b)\<close>, and the stored list is \<open>[(2, 4, b)]\<close>, so the segment the call
  resumed from is gone.
\<close>

theorem subtasks_resume_replace_drops_prior:
  "stored_subtasks resume_manager 0 = [labelled 0 2 ''a'']
   \<and> fst (generate_subtasks None (\<lambda>start. Inr [labelled 2 4 ''b'']) resume_manager resume_subtasks_request) =
       Inr [labelled 2 4 ''b'']
   \<and> stored_subtasks
         (snd (generate_subtasks None (\<lambda>start. Inr [labelled 2 4 ''b'']) resume_manager resume_subtasks_request)) 0 =
       [labelled 2 4 ''b'']
   \<and> \<not> prefix (stored_subtasks resume_manager 0)
         (stored_subtasks
           (snd (generate_subtasks None (\<lambda>start. Inr [labelled 2 4 ''b'']) resume_manager resume_subtasks_request)) 0)"
proof -
  have a: "stored_subtasks resume_manager 0 = [labelled 0 2 ''a'']"
    by (simp add: stored_subtasks_def resume_manager_def)
  have b: "labelled 0 2 ''a'' \<noteq> labelled 2 4 ''b''"
    by (simp add: labelled_def)
  show ?thesis
    unfolding subtasks_resume_replace a using b
    by (simp add: stored_subtasks_def)
qed

section \<open>Claims about structured-output extraction\<close>

lemma extract_returns_first_mapping:
  "extract_json_object loads text = Inr obj \<Longrightarrow> spec_extract loads text = Some obj"
  by (auto simp: extract_json_object_def spec_extract_def spec_try_def spec_brace_span_def Let_def
      split: if_splits option.splits sum.splits)

lemma extract_fails_without_mapping:
  "spec_extract loads text = None \<Longrightarrow> \<exists>e. extract_json_object loads text = Inl e"
  by (auto simp: extract_json_object_def spec_extract_def spec_try_def spec_brace_span_def Let_def
      split: if_splits option.splits sum.splits)

lemma extract_empty_text:
  "py_strip text = [] \<Longrightarrow> extract_json_object loads text = Inl (ValueError ''empty model output'')"
  by (simp add: extract_json_object_def)

text \<open>
  C4. The extraction should try the whole text, then the fenced block, then the span
  from the first \<open>{\<close> to the last \<open>}\<close>, and return the first mapping. On the text
  \<^verbatim>\<open>x{"a":"```{b}```"}\<close> the whole text does not decode, the fenced block is found
  with the group \<^verbatim>\<open>{b}\<close>, which does not decode, and the brace span decodes to a
  mapping: the three strategies yield that mapping, but the extraction ends with the
  decoder's error of the second strategy and never tries the third.
\<close>

theorem extract_fenced_error_skips_brace_span:
  \<open>py_strip fenced_in_string = fenced_in_string
   \<and> json_loads fenced_in_string = Inl JSONDecodeError
   \<and> json_block_search fenced_in_string = Some ''{b}''
   \<and> json_loads ''{b}'' = Inl JSONDecodeError
   \<and> spec_brace_span fenced_in_string = Some ''{"a":"```{b}```"}''
   \<and> json_loads ''{"a":"```{b}```"}'' = Inr (JObj [(''a'', JStr ''```{b}```'')])
   \<and> spec_extract json_loads fenced_in_string = Some (JObj [(''a'', JStr ''```{b}```'')])
   \<and> extract_json_object json_loads fenced_in_string = Inl JSONDecodeError\<close>
  by code_simp

end
